theory Spec2Isabelle
  imports Complex_Main "HOL-Library.Sublist" "HOL-Library.AList" "HOL-Library.Signed_Division"
begin

section \<open>Data model of \<open>GPUComputeVariable.ts\<close>\<close>

text \<open>
  JavaScript objects live on a heap and are compared by identity. Variables and textures
  are therefore addresses (\<open>vid\<close>, \<open>tid\<close>) into two stores of a \<open>world\<close>; a field
  that is \<open>undefined\<close> until assigned (\<open>pingTexture\<close>, \<open>pongTexture\<close>) or nullable
  (\<open>shader\<close>) is an \<open>option\<close>. Shader sources and names are \<open>string\<close>s.
\<close>

type_synonym vid = nat
type_synonym tid = nat

datatype uval = Num real | Vec "real list"

datatype uniform_data = UniformData (uvalue: uval) (utype: string)

record texture =
  tex_width :: nat
  tex_height :: nat
  tex_format :: string
  tex_destroyed :: bool

record shader =
  sh_fragment :: string
  sh_resources :: "(string \<times> tid) list"
  sh_params :: "(string \<times> uval) list"

text \<open>
  The fields of the class, in the order of the source. \<open>scaleMode\<close> and \<open>addressMode\<close>
  are only handed to the texture factory and are left out; \<open>paramsUniforms\<close> is an alias
  of the shader's \<open>params\<close> group and is represented by \<open>sh_params\<close> of \<open>shader\<close>;
  \<open>mesh\<close> records whether the cached mesh exists.
\<close>

record gcv =
  name :: string
  width :: nat
  height :: nat
  format :: string
  uniforms :: "(string \<times> uniform_data) list"
  samplers :: "(string \<times> tid) list"
  fragmentShader :: string
  pingTexture :: "tid option"
  pongTexture :: "tid option"
  currentIndex :: int
  dependencies :: "vid list"
  dependents :: "vid set"
  shader :: "shader option"
  mesh :: bool
  hasUniforms :: bool
  uniformKeys :: "string list"
  hasSamplers :: bool
  samplerKeys :: "string list"
  initialized :: bool
  destroyed :: bool
  texturesDestroyed :: bool
  needsPingPong :: bool
  externalPingTexture :: bool

text \<open>
  What the renderer is asked to do is kept in a log: \<open>copyTexture\<close> draws a source into a
  target, \<open>fillTexture\<close> uploads a buffer, and \<open>compute\<close> draws the variable's pass into
  a target with the sampler bindings and the \<open>params\<close> values the shader holds at that
  moment.
\<close>

datatype event =
    CopyPass tid tid
  | Upload tid "real list"
  | RenderPass (pass_var: vid) (pass_target: "tid option")
      (pass_resources: "(string \<times> tid) list") (pass_params: "(string \<times> uval) list")

text \<open>
  \<open>shaderError\<close> is the environment's answer to \<open>Shader.from\<close> / \<open>new Mesh\<close> for a
  fragment source (the \<open>try\<close> block of \<open>createShader\<close>): \<open>None\<close> when they succeed, the
  text of the exception otherwise; \<open>nextTex\<close> and \<open>nextVar\<close> are the
  allocation counters behind \<open>RenderTexture.create\<close> and \<open>new GPUComputeVariable\<close>.

  Two more answers of the JavaScript engine are parameters of the heap.
  \<open>regexTest p s\<close> is the outcome of \<open>new RegExp(p, 'm').test(s)\<close>: \<open>Inl\<close> the message of
  the \<open>SyntaxError\<close> of the constructor, \<open>Inr\<close> the result of the test; it is consulted
  only for the patterns that are not matched by hand below. \<open>protoText k\<close> is the text
  of \<open>Object.prototype[k]\<close> in a template literal when \<open>k\<close> names a property with a
  truthy value that every object literal inherits (\<open>constructor\<close>, \<open>toString\<close>,
  \<open>__proto__\<close>, ...), and \<open>None\<close> for every other string.
\<close>

record world =
  vars :: "vid \<Rightarrow> gcv"
  textures :: "tid \<Rightarrow> texture"
  nextTex :: tid
  nextVar :: vid
  renderLog :: "event list"
  shaderError :: "string \<Rightarrow> string option"
  regexTest :: "string \<Rightarrow> string \<Rightarrow> string + bool"
  protoText :: "string \<Rightarrow> string option"

datatype error = Error string | TypeError string | SyntaxError string

text \<open>A call either returns (\<open>Inr\<close>) or throws (\<open>Inl\<close>); a throw keeps the heap as the
  call left it.\<close>

type_synonym 'a res = "(error \<times> world) + 'a"

definition upd_var :: "vid \<Rightarrow> (gcv \<Rightarrow> gcv) \<Rightarrow> world \<Rightarrow> world" where
  "upd_var v f w = w\<lparr>vars := (vars w)(v := f (vars w v))\<rparr>"

definition state_of :: "world res \<Rightarrow> world" where
  "state_of r = (case r of Inl (e, w) \<Rightarrow> w | Inr w \<Rightarrow> w)"

subsection \<open>Numbers in messages\<close>

definition digit_char :: "nat \<Rightarrow> char" where
  "digit_char d = char_of (48 + d)"

function string_of_nat :: "nat \<Rightarrow> string" where
  "string_of_nat n =
     (if n < 10 then [digit_char n] else string_of_nat (n div 10) @ [digit_char (n mod 10)])"
  by pat_completeness auto
termination
  by (relation "measure id") auto

declare string_of_nat.simps [simp del]

text \<open>\<open>n.toFixed(1)\<close> for a non-negative integer \<open>n\<close> below \<open>10^21\<close>.\<close>

definition toFixed1 :: "nat \<Rightarrow> string" where
  "toFixed1 n = string_of_nat n @ ''.0''"

subsection \<open>Textures\<close>

definition createTexture :: "vid \<Rightarrow> world \<Rightarrow> tid \<times> world" where
  "createTexture v w =
     (nextTex w,
      w\<lparr>textures := (textures w)(nextTex w :=
            \<lparr>tex_width = width (vars w v), tex_height = height (vars w v),
             tex_format = format (vars w v), tex_destroyed = False\<rparr>),
        nextTex := Suc (nextTex w)\<rparr>)"

definition destroyTexture :: "tid \<Rightarrow> world \<Rightarrow> world" where
  "destroyTexture t w = w\<lparr>textures := (textures w)(t := (textures w t)\<lparr>tex_destroyed := True\<rparr>)\<rparr>"

definition ensureTextures :: "vid \<Rightarrow> world \<Rightarrow> world" where
  "ensureTextures v w =
     (let w1 = (if pingTexture (vars w v) = None
                then (case createTexture v w of
                        (t, w') \<Rightarrow> upd_var v (\<lambda>g. g\<lparr>pingTexture := Some t\<rparr>) w')
                else w)
      in if pongTexture (vars w1 v) = None
         then (if needsPingPong (vars w1 v)
               then (case createTexture v w1 of
                       (t, w') \<Rightarrow> upd_var v (\<lambda>g. g\<lparr>pongTexture := Some t\<rparr>) w')
               else upd_var v (\<lambda>g. g\<lparr>pongTexture := pingTexture g\<rparr>) w1)
         else w1)"

definition copyTexture :: "tid \<Rightarrow> tid \<Rightarrow> world \<Rightarrow> world" where
  "copyTexture src tgt w = w\<lparr>renderLog := renderLog w @ [CopyPass src tgt]\<rparr>"

definition getCurrentTexture :: "world \<Rightarrow> vid \<Rightarrow> tid option" where
  "getCurrentTexture w v =
     (if currentIndex (vars w v) = 0 then pingTexture (vars w v) else pongTexture (vars w v))"

definition getAlternateTexture :: "world \<Rightarrow> vid \<Rightarrow> tid option" where
  "getAlternateTexture w v =
     (if currentIndex (vars w v) = 0 then pongTexture (vars w v) else pingTexture (vars w v))"

subsection \<open>Seeding\<close>

definition msg_prefix :: "world \<Rightarrow> vid \<Rightarrow> string" where
  "msg_prefix w v = ''GPUComputeVariable \"'' @ name (vars w v) @ ''\": ''"

definition fillTexture :: "vid \<Rightarrow> real list \<Rightarrow> world \<Rightarrow> world res" where
  "fillTexture v data w =
     (if length data \<noteq> width (vars w v) * height (vars w v) * 4
      then Inl (Error (msg_prefix w v @ ''Data length ('' @ string_of_nat (length data)
                  @ '') does not match expected size (''
                  @ string_of_nat (width (vars w v) * height (vars w v) * 4) @ '')''), w)
      else if initialized (vars w v)
      then Inl (Error (msg_prefix w v @ ''Cannot fill texture after init().''), w)
      else
        let w1 = ensureTextures v w;
            p = the (pingTexture (vars w1 v));
            w2 = w1\<lparr>renderLog := renderLog w1 @ [Upload p data]\<rparr>
        in Inr (if needsPingPong (vars w2 v)
                then copyTexture p (the (pongTexture (vars w2 v))) w2
                else w2))"

definition fillTextureFrom :: "vid \<Rightarrow> tid \<Rightarrow> world \<Rightarrow> world res" where
  "fillTextureFrom v src w =
     (if initialized (vars w v)
      then Inl (Error (msg_prefix w v @ ''Cannot fill texture after init().''), w)
      else
        let w1 = ensureTextures v w;
            p = the (pingTexture (vars w1 v));
            w2 = copyTexture src p w1
        in Inr (if needsPingPong (vars w2 v)
                then copyTexture p (the (pongTexture (vars w2 v))) w2
                else w2))"

definition setInitialTexture :: "vid \<Rightarrow> tid \<Rightarrow> world \<Rightarrow> world res" where
  "setInitialTexture v t w =
     (if initialized (vars w v)
      then Inl (Error (msg_prefix w v @ ''Cannot set initial texture after init().''), w)
      else if tex_width (textures w t) \<noteq> width (vars w v)
              \<or> tex_height (textures w t) \<noteq> height (vars w v)
      then Inl (Error (msg_prefix w v @ ''Initial texture dimensions (''
                  @ string_of_nat (tex_width (textures w t)) @ ''x''
                  @ string_of_nat (tex_height (textures w t))
                  @ '') do not match variable dimensions (''
                  @ string_of_nat (width (vars w v)) @ ''x''
                  @ string_of_nat (height (vars w v)) @ '')''), w)
      else Inr (upd_var v (\<lambda>g. g\<lparr>pingTexture := Some t, externalPingTexture := True\<rparr>) w))"

subsection \<open>Dependencies\<close>

definition setDependencies :: "vid \<Rightarrow> vid list \<Rightarrow> world \<Rightarrow> world" where
  "setDependencies v deps w =
     (let w1 = fold (\<lambda>d. upd_var d (\<lambda>g. g\<lparr>dependents := dependents g - {v}\<rparr>))
                 (dependencies (vars w v)) w;
          w2 = upd_var v (\<lambda>g. g\<lparr>dependencies := deps\<rparr>) w1
      in fold (\<lambda>d. upd_var d (\<lambda>g. g\<lparr>dependents := insert v (dependents g)\<rparr>)) deps w2)"

section \<open>Shader assembly\<close>

text \<open>
  Strings are sequences of code units below 256. \<open>\s\<close> is the JavaScript class on these
  (tab to carriage return, space, and the no-break space U+00A0); \<open>\w\<close> is
  \<open>[A-Za-z0-9_]\<close>. The regular expression of \<open>injectShaderCode\<close> is matched by hand:
  each of its starred classes is followed by a character outside the class, so the
  longest run is the only candidate.
\<close>

definition is_space :: "char \<Rightarrow> bool" where
  "is_space c = (let n = (of_char c :: nat) in n = 32 \<or> (9 \<le> n \<and> n \<le> 13) \<or> n = 160)"

definition is_word :: "char \<Rightarrow> bool" where
  "is_word c = (let n = (of_char c :: nat) in
      (48 \<le> n \<and> n \<le> 57) \<or> (65 \<le> n \<and> n \<le> 90) \<or> n = 95 \<or> (97 \<le> n \<and> n \<le> 122))"

abbreviation nl :: string where
  "nl \<equiv> [CHR 0x0A]"

fun strip_prefix :: "string \<Rightarrow> string \<Rightarrow> string option" where
  "strip_prefix [] s = Some s"
| "strip_prefix (p # ps) [] = None"
| "strip_prefix (p # ps) (c # cs) = (if p = c then strip_prefix ps cs else None)"

definition starts_with :: "(char \<Rightarrow> bool) \<Rightarrow> string \<Rightarrow> bool" where
  "starts_with P s = (case s of [] \<Rightarrow> False | c # cs \<Rightarrow> P c)"

text \<open>\<open>/^(\s*#version[^\n]*\n)/\<close>: the matched prefix and the rest of the source.\<close>

definition version_match :: "string \<Rightarrow> (string \<times> string) option" where
  "version_match s =
     (case strip_prefix ''#version'' (dropWhile is_space s) of
        None \<Rightarrow> None
      | Some r \<Rightarrow>
          (case dropWhile (\<lambda>c. c \<noteq> CHR 0x0A) r of
             [] \<Rightarrow> None
           | c # rest \<Rightarrow>
               Some (takeWhile is_space s @ ''#version'' @ takeWhile (\<lambda>c. c \<noteq> CHR 0x0A) r @ [c],
                     rest)))"

definition injectShaderCode :: "string \<Rightarrow> string \<Rightarrow> string" where
  "injectShaderCode shdr codeToInject =
     (case version_match shdr of
        Some (m, rest) \<Rightarrow> m @ codeToInject @ rest
      | None \<Rightarrow> codeToInject @ shdr)"

text \<open>
  The pattern of \<open>isUniformDeclared\<close> is built from the name, which is spliced in
  unescaped. When the name holds none of the syntax characters of regular expressions
  it stands for itself and the pattern is matched by hand, as follows; otherwise the
  outcome is the engine's (\<open>regexTest\<close>).
\<close>

definition regex_syntax_char :: "char \<Rightarrow> bool" where
  "regex_syntax_char c \<longleftrightarrow>
     c \<in> set [CHR 0x5C, CHR ''^'', CHR ''$'', CHR ''.'', CHR ''*'', CHR ''+'', CHR ''?'',
              CHR ''('', CHR '')'', CHR ''['', CHR '']'', CHR ''{'', CHR ''}'', CHR ''|'']"

text \<open>The source text of the pattern; \<open>bs\<close> is the backslash.\<close>

abbreviation bs :: string where
  "bs \<equiv> [CHR 0x5C]"

definition uniform_regex :: "string \<Rightarrow> string" where
  "uniform_regex uniformName =
     bs @ ''buniform'' @ bs @ ''s+'' @ bs @ ''w+'' @ bs @ ''s+'' @ uniformName
     @ bs @ ''s*('' @ bs @ ''[[^'' @ bs @ '']]*'' @ bs @ ''])?'' @ bs @ ''s*;''"

text \<open>\<open>\s*(\[[^\]]*\])?\s*;\<close> at the start of a string.\<close>

definition decl_tail :: "string \<Rightarrow> bool" where
  "decl_tail s =
     (case dropWhile is_space s of
        [] \<Rightarrow> False
      | c # r \<Rightarrow>
          if c = CHR '';'' then True
          else if c = CHR ''['' then
            (case dropWhile (\<lambda>c. c \<noteq> CHR '']'') r of
               [] \<Rightarrow> False
             | c' # r' \<Rightarrow> starts_with (\<lambda>c. c = CHR '';'') (dropWhile is_space r'))
          else False)"

text \<open>\<open>NAME\s*(\[[^\]]*\])?\s*;\<close> at the start of a string, and \<open>\s+\<close> followed by it:
  the name may itself begin with white space, so every split of the run is tried.\<close>

definition name_here :: "string \<Rightarrow> string \<Rightarrow> bool" where
  "name_here uniformName s =
     (case strip_prefix uniformName s of None \<Rightarrow> False | Some r \<Rightarrow> decl_tail r)"

fun spaces_then_name :: "string \<Rightarrow> string \<Rightarrow> bool" where
  "spaces_then_name uniformName [] = False"
| "spaces_then_name uniformName (c # cs) =
     (is_space c \<and> (name_here uniformName cs \<or> spaces_then_name uniformName cs))"

text \<open>\<open>uniform\s+\w+\s+NAME\s*(\[[^\]]*\])?\s*;\<close> at the start of a string.\<close>

definition uniform_decl_here :: "string \<Rightarrow> string \<Rightarrow> bool" where
  "uniform_decl_here uniformName s =
     (case strip_prefix ''uniform'' s of
        None \<Rightarrow> False
      | Some r1 \<Rightarrow>
          starts_with is_space r1 \<and>
          (let r2 = dropWhile is_space r1 in
           starts_with is_word r2 \<and> spaces_then_name uniformName (dropWhile is_word r2)))"

text \<open>The search over all start positions; \<open>\b\<close> holds before \<open>u\<close> when the previous
  character is not a word character.\<close>

fun decl_search :: "string \<Rightarrow> bool \<Rightarrow> string \<Rightarrow> bool" where
  "decl_search uniformName prev_word [] = False"
| "decl_search uniformName prev_word (c # cs) =
     ((\<not> prev_word \<and> uniform_decl_here uniformName (c # cs))
      \<or> decl_search uniformName (is_word c) cs)"

definition isUniformDeclared :: "world \<Rightarrow> string \<Rightarrow> string \<Rightarrow> string + bool" where
  "isUniformDeclared w shaderSource uniformName =
     (if list_ex regex_syntax_char uniformName
      then regexTest w (uniform_regex uniformName) shaderSource
      else Inr (decl_search uniformName False shaderSource))"

definition PIXI_TO_GLSL_TYPE :: "(string \<times> string) list" where
  "PIXI_TO_GLSL_TYPE =
     [(''f32'', ''float''), (''i32'', ''int''),
      (''vec2<f32>'', ''vec2''), (''vec3<f32>'', ''vec3''), (''vec4<f32>'', ''vec4''),
      (''vec2<i32>'', ''ivec2''), (''vec3<i32>'', ''ivec3''), (''vec4<i32>'', ''ivec4''),
      (''mat2x2<f32>'', ''mat2''), (''mat3x3<f32>'', ''mat3''), (''mat4x4<f32>'', ''mat4''),
      (''mat3x2<f32>'', ''mat3x2''), (''mat4x2<f32>'', ''mat4x2''),
      (''mat2x3<f32>'', ''mat2x3''), (''mat4x3<f32>'', ''mat4x3''),
      (''mat2x4<f32>'', ''mat2x4''), (''mat3x4<f32>'', ''mat3x4'')]"

text \<open>\<open>PIXI_TO_GLSL_TYPE[type]\<close>: the table is an object literal, so a string that is not
  one of its keys is looked up in \<open>Object.prototype\<close>; \<open>None\<close> is a falsy result.\<close>

definition lookup_type :: "world \<Rightarrow> string \<Rightarrow> string option" where
  "lookup_type w ty =
     (case map_of PIXI_TO_GLSL_TYPE ty of Some glslType \<Rightarrow> Some glslType | None \<Rightarrow> protoText w ty)"

definition resolutionDefine :: "nat \<Rightarrow> nat \<Rightarrow> string" where
  "resolutionDefine wd ht =
     ''#define resolution vec2('' @ toFixed1 wd @ '', '' @ toFixed1 ht @ '')'' @ nl"

definition sampler_line :: "string \<Rightarrow> string" where
  "sampler_line n = ''uniform sampler2D '' @ n @ '';'' @ nl"

definition uniform_line :: "string \<Rightarrow> string \<Rightarrow> string" where
  "uniform_line glslType key = ''uniform '' @ glslType @ '' '' @ key @ '';'' @ nl"

text \<open>What the assembly can throw before the shader is compiled: the \<open>SyntaxError\<close> of
  a pattern, or the error for a key whose type has no GLSL name.\<close>

datatype assembly_throw = InvalidRegExp string | UnknownType string string

text \<open>The two sampler loops append to one string, first over the dependencies' names,
  then over the keys of \<open>samplers\<close>.\<close>

fun sampler_loop :: "world \<Rightarrow> string \<Rightarrow> string list \<Rightarrow> string \<Rightarrow> assembly_throw + string" where
  "sampler_loop w fs [] acc = Inr acc"
| "sampler_loop w fs (n # ns) acc =
     (case isUniformDeclared w fs n of
        Inl m \<Rightarrow> Inl (InvalidRegExp m)
      | Inr declared \<Rightarrow>
          sampler_loop w fs ns (if \<not> declared then acc @ sampler_line n else acc))"

definition samplerDeclarations ::
  "world \<Rightarrow> string \<Rightarrow> string list \<Rightarrow> string list \<Rightarrow> assembly_throw + string" where
  "samplerDeclarations w fs depNames samplerNames =
     (case sampler_loop w fs depNames [] of
        Inl t \<Rightarrow> Inl t
      | Inr acc \<Rightarrow> sampler_loop w fs samplerNames acc)"

text \<open>The uniform loop.\<close>

fun uniformDeclarations ::
  "world \<Rightarrow> string \<Rightarrow> (string \<times> uniform_data) list \<Rightarrow> string \<Rightarrow> assembly_throw + string" where
  "uniformDeclarations w fs [] acc = Inr acc"
| "uniformDeclarations w fs ((key, u) # us) acc =
     (case isUniformDeclared w fs key of
        Inl m \<Rightarrow> Inl (InvalidRegExp m)
      | Inr declared \<Rightarrow>
          if declared then uniformDeclarations w fs us acc
          else (case lookup_type w (utype u) of
                  None \<Rightarrow> Inl (UnknownType key (utype u))
                | Some glslType \<Rightarrow> uniformDeclarations w fs us (acc @ uniform_line glslType key)))"

text \<open>The text injected for a variable, or what the loops threw.\<close>

definition codeToInject :: "world \<Rightarrow> vid \<Rightarrow> assembly_throw + string" where
  "codeToInject w v =
     (let g = vars w v in
      case samplerDeclarations w (fragmentShader g)
             (map (\<lambda>d. name (vars w d)) (dependencies g)) (map fst (samplers g)) of
        Inl t \<Rightarrow> Inl t
      | Inr sd \<Rightarrow>
          (case uniformDeclarations w (fragmentShader g) (uniforms g) [] of
             Inl t \<Rightarrow> Inl t
           | Inr ud \<Rightarrow> Inr (resolutionDefine (width g) (height g) @ sd @ ud)))"

text \<open>\<open>resources[dep.name] = dep.getCurrentTexture().source\<close>: reading \<open>source\<close> of an
  undefined texture is a \<open>TypeError\<close> (\<open>None\<close>).\<close>

fun dep_resources :: "world \<Rightarrow> vid list \<Rightarrow> (string \<times> tid) list \<Rightarrow> (string \<times> tid) list option" where
  "dep_resources w [] acc = Some acc"
| "dep_resources w (d # ds) acc =
     (case getCurrentTexture w d of
        None \<Rightarrow> None
      | Some t \<Rightarrow> dep_resources w ds (AList.update (name (vars w d)) t acc))"

definition undefined_source :: error where
  "undefined_source = TypeError ''Cannot read properties of undefined (reading source)''"

definition createShader :: "vid \<Rightarrow> world \<Rightarrow> world res" where
  "createShader v w =
     (let g = vars w v in
      case codeToInject w v of
        Inl (InvalidRegExp m) \<Rightarrow> Inl (SyntaxError m, w)
      | Inl (UnknownType key ty) \<Rightarrow>
          Inl (Error (msg_prefix w v @ ''Unknown uniform type \"'' @ ty @ ''\" for \"'' @ key @ ''\"''), w)
      | Inr code \<Rightarrow>
          let fullFragmentShader = injectShaderCode (fragmentShader g) code in
          (case dep_resources w (dependencies g) [] of
             None \<Rightarrow> Inl (undefined_source, w)
           | Some r1 \<Rightarrow>
               let resources = fold (\<lambda>(n, t). AList.update n t) (samplers g) r1;
                   params = (if hasUniforms g then map (\<lambda>(k, u). (k, uvalue u)) (uniforms g) else [])
               in (case shaderError w fullFragmentShader of
                     Some e \<Rightarrow> Inl (Error (msg_prefix w v @ ''Error creating shader: '' @ e), w)
                   | None \<Rightarrow>
                       Inr (upd_var v (\<lambda>g. g\<lparr>shader := Some \<lparr>sh_fragment = fullFragmentShader,
                                                 sh_resources = resources, sh_params = params\<rparr>,
                                               mesh := True\<rparr>) w))))"

section \<open>Lifecycle\<close>

definition init :: "vid \<Rightarrow> world \<Rightarrow> world res" where
  "init v w =
     (if initialized (vars w v)
      then Inl (Error (msg_prefix w v @ ''Already initialized.''), w)
      else
        let w1 = upd_var v (\<lambda>g. g\<lparr>needsPingPong := (v \<in> set (dependencies g))\<rparr>) w;
            w2 = ensureTextures v w1
        in (case createShader v w2 of
              Inl e \<Rightarrow> Inl e
            | Inr w3 \<Rightarrow> Inr (upd_var v (\<lambda>g. g\<lparr>initialized := True\<rparr>) w3)))"

text \<open>The three update loops of \<open>compute\<close> write into the shader object; \<open>Inl\<close> is the
  shader as a \<open>TypeError\<close> left it.\<close>

fun bind_deps :: "world \<Rightarrow> vid list \<Rightarrow> shader \<Rightarrow> shader + shader" where
  "bind_deps w [] sh = Inr sh"
| "bind_deps w (d # ds) sh =
     (case getCurrentTexture w d of
        None \<Rightarrow> Inl sh
      | Some t \<Rightarrow>
          bind_deps w ds (sh\<lparr>sh_resources := AList.update (name (vars w d)) t (sh_resources sh)\<rparr>))"

fun bind_samplers :: "(string \<times> tid) list \<Rightarrow> string list \<Rightarrow> shader \<Rightarrow> shader + shader" where
  "bind_samplers smp [] sh = Inr sh"
| "bind_samplers smp (key # keys) sh =
     (case map_of smp key of
        None \<Rightarrow> Inl sh
      | Some t \<Rightarrow> bind_samplers smp keys (sh\<lparr>sh_resources := AList.update key t (sh_resources sh)\<rparr>))"

fun push_uniforms :: "(string \<times> uniform_data) list \<Rightarrow> string list \<Rightarrow> shader \<Rightarrow> shader + shader" where
  "push_uniforms us [] sh = Inr sh"
| "push_uniforms us (key # keys) sh =
     (case map_of us key of
        None \<Rightarrow> Inl sh
      | Some u \<Rightarrow> push_uniforms us keys (sh\<lparr>sh_params := AList.update key (uvalue u) (sh_params sh)\<rparr>))"

definition update_shader :: "world \<Rightarrow> vid \<Rightarrow> shader \<Rightarrow> shader + shader" where
  "update_shader w v sh =
     (let g = vars w v in
      case bind_deps w (dependencies g) sh of
        Inl sh' \<Rightarrow> Inl sh'
      | Inr sh1 \<Rightarrow>
          (case (if hasSamplers g then bind_samplers (samplers g) (samplerKeys g) sh1 else Inr sh1) of
             Inl sh' \<Rightarrow> Inl sh'
           | Inr sh2 \<Rightarrow>
               (if hasUniforms g then push_uniforms (uniforms g) (uniformKeys g) sh2 else Inr sh2)))"

text \<open>The body of \<open>compute\<close> after the automatic \<open>init\<close>.\<close>

definition compute_pass :: "vid \<Rightarrow> world \<Rightarrow> world res" where
  "compute_pass v w =
     (case shader (vars w v) of
        None \<Rightarrow> Inl (TypeError ''Cannot read properties of null'', w)
      | Some sh \<Rightarrow>
          (case update_shader w v sh of
             Inl sh' \<Rightarrow> Inl (undefined_source, upd_var v (\<lambda>g. g\<lparr>shader := Some sh'\<rparr>) w)
           | Inr sh' \<Rightarrow>
               let w1 = upd_var v (\<lambda>g. g\<lparr>shader := Some sh'\<rparr>) w;
                   w2 = w1\<lparr>renderLog := renderLog w1 @
                          [RenderPass v (getAlternateTexture w1 v) (sh_resources sh') (sh_params sh')]\<rparr>
               in Inr (upd_var v (\<lambda>g. g\<lparr>currentIndex := 1 - currentIndex g\<rparr>) w2)))"

definition compute :: "vid \<Rightarrow> world \<Rightarrow> world res" where
  "compute v w =
     (case (if \<not> initialized (vars w v) then init v w else Inr w) of
        Inl e \<Rightarrow> Inl e
      | Inr w1 \<Rightarrow> compute_pass v w1)"

section \<open>Destruction\<close>

definition destroyTextures :: "vid \<Rightarrow> world \<Rightarrow> world res" where
  "destroyTextures v w =
     (let g = vars w v in
      if texturesDestroyed g then Inr w
      else if needsPingPong g then
        (let alternateTexture = (if currentIndex g = 0 then pongTexture g else pingTexture g);
             isExternalTexture = (alternateTexture = pingTexture g \<and> externalPingTexture g)
         in if \<not> isExternalTexture then
              (case alternateTexture of
                 None \<Rightarrow> Inl (TypeError ''Cannot read properties of undefined (reading destroy)'', w)
               | Some t \<Rightarrow>
                   Inr (upd_var v (\<lambda>g. g\<lparr>texturesDestroyed := True\<rparr>) (destroyTexture t w)))
            else Inr (upd_var v (\<lambda>g. g\<lparr>texturesDestroyed := True\<rparr>) w))
      else Inr (upd_var v (\<lambda>g. g\<lparr>texturesDestroyed := True\<rparr>) w))"

fun destroy_deps :: "vid \<Rightarrow> vid list \<Rightarrow> world \<Rightarrow> world res" where
  "destroy_deps v [] w = Inr w"
| "destroy_deps v (d # ds) w =
     (let w1 = upd_var d (\<lambda>g. g\<lparr>dependents := dependents g - {v}\<rparr>) w in
      if destroyed (vars w1 d) \<and> \<not> texturesDestroyed (vars w1 d) \<and> dependents (vars w1 d) = {}
      then (case destroyTextures d w1 of
              Inl e \<Rightarrow> Inl e
            | Inr w2 \<Rightarrow> destroy_deps v ds w2)
      else destroy_deps v ds w1)"

definition destroy :: "vid \<Rightarrow> world \<Rightarrow> world res" where
  "destroy v w =
     (if destroyed (vars w v) then Inr w
      else
        let w1 = upd_var v (\<lambda>g. g\<lparr>destroyed := True, mesh := False, shader := None\<rparr>) w in
        (case destroy_deps v (dependencies (vars w1 v)) w1 of
           Inl e \<Rightarrow> Inl e
         | Inr w2 \<Rightarrow>
             (case (if dependents (vars w2 v) = {} then destroyTextures v w2 else Inr w2) of
                Inl e \<Rightarrow> Inl e
              | Inr w3 \<Rightarrow>
                  Inr (upd_var v (\<lambda>g. g\<lparr>dependencies := [], initialized := False\<rparr>) w3))))"


section \<open>Construction and chained evaluation\<close>

record options =
  opt_width :: nat
  opt_height :: nat
  opt_format :: "string option"
  opt_name :: string
  opt_fragmentShader :: string
  opt_uniforms :: "(string \<times> uniform_data) list option"
  opt_samplers :: "(string \<times> tid) list option"
  opt_initialTexture :: "tid option"

definition fresh_gcv :: "options \<Rightarrow> gcv" where
  "fresh_gcv opts =
     \<lparr>name = opt_name opts, width = opt_width opts, height = opt_height opts,
      format = (case opt_format opts of None \<Rightarrow> ''rgba32float'' | Some f \<Rightarrow> f),
      uniforms = (case opt_uniforms opts of None \<Rightarrow> [] | Some us \<Rightarrow> us),
      samplers = (case opt_samplers opts of None \<Rightarrow> [] | Some ss \<Rightarrow> ss),
      fragmentShader = opt_fragmentShader opts,
      pingTexture = None, pongTexture = None, currentIndex = 0,
      dependencies = [], dependents = {}, shader = None, mesh = False,
      hasUniforms = (case opt_uniforms opts of None \<Rightarrow> False | Some us \<Rightarrow> 0 < length us),
      uniformKeys = (case opt_uniforms opts of None \<Rightarrow> [] | Some us \<Rightarrow> map fst us),
      hasSamplers = (case opt_samplers opts of None \<Rightarrow> False | Some ss \<Rightarrow> 0 < length ss),
      samplerKeys = (case opt_samplers opts of None \<Rightarrow> [] | Some ss \<Rightarrow> map fst ss),
      initialized = False, destroyed = False, texturesDestroyed = False,
      needsPingPong = True, externalPingTexture = False\<rparr>"

definition new_GPUComputeVariable :: "options \<Rightarrow> world \<Rightarrow> (vid \<times> world) res" where
  "new_GPUComputeVariable opts w =
     (let v = nextVar w;
          w1 = w\<lparr>vars := (vars w)(v := fresh_gcv opts), nextVar := Suc v\<rparr>
      in case opt_initialTexture opts of
           None \<Rightarrow> Inr (v, w1)
         | Some t \<Rightarrow>
             (case setInitialTexture v t w1 of
                Inl e \<Rightarrow> Inl e
              | Inr w2 \<Rightarrow> Inr (v, w2)))"

text \<open>\<open>variable.uniforms.KEY.value = x\<close>.\<close>

definition set_uniform_value :: "vid \<Rightarrow> string \<Rightarrow> uval \<Rightarrow> world \<Rightarrow> world" where
  "set_uniform_value v key x w =
     upd_var v (\<lambda>g. g\<lparr>uniforms :=
        map (\<lambda>(k, u). if k = key then (k, UniformData x (utype u)) else (k, u)) (uniforms g)\<rparr>) w"

text \<open>
  \<open>computeChain\<close> recurses through the heap, so the recursion is bounded by fuel: \<open>None\<close>
  is "out of fuel", \<open>Some\<close> carries the return or the throw. The set \<open>visited\<close> is the one
  shared, mutated \<open>Set\<close> of the source and is passed along with the heap.
\<close>

fun computeChain :: "nat \<Rightarrow> vid \<Rightarrow> vid set \<times> world \<Rightarrow> (vid set \<times> world) res option"
  and chain_deps :: "nat \<Rightarrow> vid \<Rightarrow> vid list \<Rightarrow> vid set \<times> world \<Rightarrow> (vid set \<times> world) res option"
where
  "computeChain 0 v s = None"
| "computeChain (Suc n) v (visited, w) =
     (if v \<in> visited then Some (Inr (visited, w))
      else
        (case chain_deps n v (dependencies (vars w v)) (insert v visited, w) of
           None \<Rightarrow> None
         | Some (Inl e) \<Rightarrow> Some (Inl e)
         | Some (Inr (visited', w1)) \<Rightarrow>
             (case compute v w1 of
                Inl e \<Rightarrow> Some (Inl e)
              | Inr w2 \<Rightarrow> Some (Inr (visited', w2)))))"
| "chain_deps n v [] s = Some (Inr s)"
| "chain_deps n v (dep # deps) s =
     (if dep = v then chain_deps n v deps s
      else
        (case computeChain n dep s of
           None \<Rightarrow> None
         | Some (Inl e) \<Rightarrow> Some (Inl e)
         | Some (Inr s') \<Rightarrow> chain_deps n v deps s'))"

section \<open>Distance-field generation (\<open>generateSDFTex\<close>)\<close>




text \<open>The two fragment sources \<open>jfaFragment\<close> and \<open>jfaFinalizeUnsignedFragment\<close> are
  parameters: the function passes them on and never looks inside.\<close>

text \<open>The constructor arguments of the two variables.\<close>

definition jfa_options :: "string \<Rightarrow> nat \<Rightarrow> nat \<Rightarrow> tid \<Rightarrow> options" where
  "jfa_options jfaFragment wd ht tex =
     \<lparr>opt_width = wd, opt_height = ht, opt_format = Some ''rgba16float'',
      opt_name = ''jfa'', opt_fragmentShader = jfaFragment,
      opt_uniforms = Some [(''uTexelSize'', UniformData (Vec [1 / real wd, 1 / real ht]) ''vec2<f32>''),
                           (''uStepSize'', UniformData (Num 1) ''f32''),
                           (''uFirst'', UniformData (Num 1) ''f32'')],
      opt_samplers = Some [(''uTex'', tex)], opt_initialTexture = None\<rparr>"



section \<open>The particle simulation pass\<close>

text \<open>
  The body of \<open>main\<close> of \<open>simulationShader\<close> for one fragment. GLSL \<open>float\<close> is taken as
  \<open>real\<close> and \<open>int\<close> as \<open>int\<close> (so no rounding, infinity or NaN); samplers are functions
  from a coordinate to a texel; integer division truncates (\<open>sdiv\<close>).
\<close>

type_synonym vec2 = "real \<times> real"
type_synonym vec3 = "real \<times> real \<times> real"
type_synonym vec4 = "real \<times> real \<times> real \<times> real"

record sim_env =
  uTexSize :: vec2
  dt :: real
  uPhase :: real
  stiffness :: real
  damping :: real
  globalDamping :: real
  massMultiplier :: real
  orbitMultiplier :: real
  orbitOffset :: real
  sdfResolutionMultiplier :: real
  tangentialNoiseAmplitude :: real
  uTangentialDamping :: real
  uS :: real
  uSimResolution :: vec2
  uParticlesState :: "vec2 \<Rightarrow> vec4"
  uAttributes :: "vec2 \<Rightarrow> vec4"
  uNoise :: "vec2 \<Rightarrow> vec4"
  uSdf0 :: "vec2 \<Rightarrow> vec4"
  uSdf1 :: "vec2 \<Rightarrow> vec4"
  uSdf2 :: "vec2 \<Rightarrow> vec4"
  uSdf3 :: "vec2 \<Rightarrow> vec4"

definition vadd :: "vec2 \<Rightarrow> vec2 \<Rightarrow> vec2" where
  "vadd a b = (fst a + fst b, snd a + snd b)"

definition vscale :: "real \<Rightarrow> vec2 \<Rightarrow> vec2" where
  "vscale k a = (k * fst a, k * snd a)"

definition vdot :: "vec2 \<Rightarrow> vec2 \<Rightarrow> real" where
  "vdot a b = fst a * fst b + snd a * snd b"

definition vlength :: "vec2 \<Rightarrow> real" where
  "vlength a = sqrt (fst a * fst a + snd a * snd a)"

definition vdiv :: "vec2 \<Rightarrow> real \<Rightarrow> vec2" where
  "vdiv a k = (fst a / k, snd a / k)"

definition vmix :: "vec2 \<Rightarrow> vec2 \<Rightarrow> real \<Rightarrow> vec2" where
  "vmix a b t = vadd (vscale (1 - t) a) (vscale t b)"

definition smoothstep :: "real \<Rightarrow> real \<Rightarrow> real \<Rightarrow> real" where
  "smoothstep e0 e1 x =
     (let t = min (max ((x - e0) / (e1 - e0)) 0) 1 in t * t * (3 - 2 * t))"

definition float_to_int :: "real \<Rightarrow> int" where
  "float_to_int x = (if 0 \<le> x then \<lfloor>x\<rfloor> else \<lceil>x\<rceil>)"

definition simToUv :: "sim_env \<Rightarrow> vec2 \<Rightarrow> vec2" where
  "simToUv env sim =
     (let px = vadd (vscale (uS env) sim) (vscale 0.5 (uSimResolution env))
      in (fst px / fst (uSimResolution env), snd px / snd (uSimResolution env)))"

definition sampleSdf :: "sim_env \<Rightarrow> int \<Rightarrow> vec2 \<Rightarrow> vec3" where
  "sampleSdf env index uv =
     (let t = (if index = 0 then uSdf0 env uv
               else if index = 1 then uSdf1 env uv
               else if index = 2 then uSdf2 env uv
               else uSdf3 env uv)
      in (fst t, fst (snd t), fst (snd (snd t))))"

text \<open>\<open>F_total\<close> as it stands when the integration starts.\<close>

definition F_total :: "sim_env \<Rightarrow> vec2 \<Rightarrow> vec2" where
  "F_total env vUV =
     (let movement = uParticlesState env vUV;
          position = (fst movement, fst (snd movement));
          velocity = (fst (snd (snd movement)), snd (snd (snd movement)));
          attributes = uAttributes env vUV;
          initEnd = fst (snd attributes);
          orbit = fst (snd (snd attributes));
          particleIndex = (real_of_int \<lfloor>fst vUV * fst (uTexSize env)\<rfloor>,
                           real_of_int \<lfloor>snd vUV * snd (uTexSize env)\<rfloor>);
          linearIndex = float_to_int (snd particleIndex * fst (uTexSize env) + fst particleIndex);
          sdfIndex = linearIndex - (linearIndex sdiv 4) * 4;
          sdfUv = simToUv env position;
          sdfData = sampleSdf env sdfIndex sdfUv;
          gradient = (fst sdfData, fst (snd sdfData));
          sdfDistPx = snd (snd sdfData);
          sdfDistSim = sdfDistPx / (sdfResolutionMultiplier env * uS env);
          targetOrbit = orbitMultiplier env * (orbit + orbitOffset env);
          gradLen = vlength gradient;
          gradientDir = (if gradLen > 0.0001 then vdiv gradient gradLen else (0, 0));
          tangentDir = (- snd gradientDir, fst gradientDir);
          dtSec = dt env / 1000
      in
      if initEnd \<le> uPhase env then
        (let tangentialNoiseMagnitude =
               (fst (uNoise env (vadd (vscale 5 sdfUv) (0, dtSec * 0.1))) * 2 - 1)
                 * tangentialNoiseAmplitude env;
             F_spring0 = vscale ((targetOrbit - sdfDistSim) * stiffness env) gradientDir;
             F_spring = vadd F_spring0
                          (vscale tangentialNoiseMagnitude (snd F_spring0, - fst F_spring0));
             tangentForceSign = (if sdfIndex = 2 \<or> sdfIndex = 0 then - 1 else 1 :: real);
             F_tangent = vscale (0.01 * tangentForceSign) (snd gradientDir, - fst gradientDir);
             F_result = vmix F_spring F_tangent
                          (smoothstep 0.003 0.001 \<bar>sdfDistSim - targetOrbit\<bar>);
             velAlongGradient = vdot velocity gradientDir;
             velAlongTangent = vdot velocity tangentDir;
             F_dampTangent = vscale (- uTangentialDamping env * velAlongTangent) tangentDir;
             F_damp = vscale (- damping env * velAlongGradient) gradientDir
         in vadd (vadd F_result F_damp) F_dampTangent)
      else (0, 0))"

text \<open>The value written to \<open>finalColor\<close>.\<close>

definition simulation_main :: "sim_env \<Rightarrow> vec2 \<Rightarrow> vec4" where
  "simulation_main env vUV =
     (let movement = uParticlesState env vUV;
          position = (fst movement, fst (snd movement));
          velocity = (fst (snd (snd movement)), snd (snd (snd movement)));
          massAttr = snd (snd (snd (uAttributes env vUV)));
          mass = max (max (massMultiplier env * massAttr) 0.05) 0.0001;
          dtSec = dt env / 1000;
          acceleration = vdiv (F_total env vUV) mass;
          velocity1 = vadd velocity (vscale dtSec acceleration);
          velocity2 = vscale (exp (- globalDamping env * dtSec)) velocity1;
          position1 = vadd position (vscale dtSec velocity2)
      in (fst position1, snd position1, fst velocity2, snd velocity2))"

section \<open>Concrete heaps\<close>

text \<open>An empty heap, and a texture created by the caller (\<open>RenderTexture.create\<close> outside
  the class). No name in the heaps of this section holds a syntax character of regular
  expressions and no uniform type is outside the table, so the two engine parameters
  are never consulted in them.\<close>

definition no_options :: options where
  "no_options =
     \<lparr>opt_width = 0, opt_height = 0, opt_format = None, opt_name = [],
      opt_fragmentShader = [], opt_uniforms = None, opt_samplers = None,
      opt_initialTexture = None\<rparr>"

definition empty_world :: world where
  "empty_world =
     \<lparr>vars = (\<lambda>v. fresh_gcv no_options),
      textures = (\<lambda>t. \<lparr>tex_width = 0, tex_height = 0, tex_format = [], tex_destroyed = False\<rparr>),
      nextTex = 0, nextVar = 0, renderLog = [], shaderError = (\<lambda>src. None),
      regexTest = (\<lambda>p s. Inl ''Invalid regular expression''), protoText = (\<lambda>k. None)\<rparr>"

definition new_texture :: "nat \<Rightarrow> nat \<Rightarrow> world \<Rightarrow> world" where
  "new_texture wd ht w =
     w\<lparr>textures := (textures w)(nextTex w :=
          \<lparr>tex_width = wd, tex_height = ht, tex_format = ''rgba32float'', tex_destroyed = False\<rparr>),
       nextTex := Suc (nextTex w)\<rparr>"

definition new_var :: "string \<Rightarrow> nat \<Rightarrow> nat \<Rightarrow> world \<Rightarrow> world" where
  "new_var nm wd ht w =
     state_of (map_sum id snd (new_GPUComputeVariable
        (no_options\<lparr>opt_width := wd, opt_height := ht, opt_name := nm\<rparr>) w))"

text \<open>Two fresh 2x2 variables \<open>a\<close> (address 0) and \<open>b\<close> (address 1), and the same heap
  after \<open>a.init()\<close>.\<close>

definition heap_ab :: world where
  "heap_ab = new_var ''b'' 2 2 (new_var ''a'' 2 2 empty_world)"


text \<open>An environment of the simulation pass with one particle at rest whose
  initialization window has not elapsed.\<close>

definition env_rest :: sim_env where
  "env_rest =
     \<lparr>uTexSize = (2, 2), dt = 16, uPhase = 0.2, stiffness = 3, damping = 1,
      globalDamping = 0.5, massMultiplier = 1, orbitMultiplier = 1, orbitOffset = 0,
      sdfResolutionMultiplier = 1, tangentialNoiseAmplitude = 0.1, uTangentialDamping = 0.5,
      uS = 100, uSimResolution = (200, 100),
      uParticlesState = (\<lambda>uv. (1, 2, 0, 0)), uAttributes = (\<lambda>uv. (0.4, 0.5, 0.3, 1)),
      uNoise = (\<lambda>uv. (0, 0, 0, 0)),
      uSdf0 = (\<lambda>uv. (1, 0, 5, 0)), uSdf1 = (\<lambda>uv. (1, 0, 5, 0)),
      uSdf2 = (\<lambda>uv. (1, 0, 5, 0)), uSdf3 = (\<lambda>uv. (1, 0, 5, 0))\<rparr>"

section \<open>Notions used in the statements\<close>

text \<open>The heap on which \<open>createShader\<close> runs inside \<open>init\<close>.\<close>

definition init_pre :: "vid \<Rightarrow> world \<Rightarrow> world" where
  "init_pre u w =
     ensureTextures u (upd_var u (\<lambda>g. g\<lparr>needsPingPong := (u \<in> set (dependencies g))\<rparr>) w)"



text \<open>
  The public calls that seed, wire, initialize and run a variable, and the heap after
  such a call, whether it returned or threw.
\<close>

datatype call =
    FillTexture vid "real list"
  | FillTextureFrom vid tid
  | SetDependencies vid "vid list"
  | Init vid
  | Compute vid

fun perform :: "call \<Rightarrow> world \<Rightarrow> world" where
  "perform (FillTexture u data) w = state_of (fillTexture u data w)"
| "perform (FillTextureFrom u src) w = state_of (fillTextureFrom u src w)"
| "perform (SetDependencies u deps) w = setDependencies u deps w"
| "perform (Init u) w = state_of (init u w)"
| "perform (Compute u) w = state_of (compute u w)"

definition perform_all :: "call list \<Rightarrow> world \<Rightarrow> world" where
  "perform_all calls w = fold perform calls w"

text \<open>
  The declarations of the assembly in the words of the specification: one 2D-sampler line
  for each dependency name and sampler key that the body does not declare, then one line
  for each uniform key that the body does not declare, with the type taken from the
  table.
\<close>

definition declared :: "world \<Rightarrow> vid \<Rightarrow> string \<Rightarrow> bool" where
  "declared w v n \<longleftrightarrow> isUniformDeclared w (fragmentShader (vars w v)) n = Inr True"

definition glsl_type :: "world \<Rightarrow> uniform_data \<Rightarrow> string" where
  "glsl_type w u = (case lookup_type w (utype u) of None \<Rightarrow> [] | Some ty \<Rightarrow> ty)"

definition sampler_names :: "world \<Rightarrow> vid \<Rightarrow> string list" where
  "sampler_names w v =
     map (\<lambda>d. name (vars w d)) (dependencies (vars w v)) @ map fst (samplers (vars w v))"

definition injected_samplers :: "world \<Rightarrow> vid \<Rightarrow> string list" where
  "injected_samplers w v =
     filter (\<lambda>n. \<not> declared w v n) (sampler_names w v)"

definition injected_uniforms :: "world \<Rightarrow> vid \<Rightarrow> (string \<times> uniform_data) list" where
  "injected_uniforms w v =
     filter (\<lambda>(k, u). \<not> declared w v k) (uniforms (vars w v))"

definition injected_names :: "world \<Rightarrow> vid \<Rightarrow> string list" where
  "injected_names w v = injected_samplers w v @ map fst (injected_uniforms w v)"

definition spec_declarations :: "world \<Rightarrow> vid \<Rightarrow> string" where
  "spec_declarations w v =
     resolutionDefine (width (vars w v)) (height (vars w v))
     @ concat (map sampler_line (injected_samplers w v))
     @ concat (map (\<lambda>(k, u). uniform_line (glsl_type w u) k) (injected_uniforms w v))"

text \<open>The names checked by the assembly of a variable hold no syntax character of
  regular expressions.\<close>

definition plain_names :: "world \<Rightarrow> vid \<Rightarrow> bool" where
  "plain_names w v \<longleftrightarrow>
     list_all (\<lambda>n. \<not> list_ex regex_syntax_char n)
       (sampler_names w v @ map fst (uniforms (vars w v)))"

text \<open>
  The two patterns in the words of the specification. A leading \<open>#version\<close> line is
  optional white space, \<open>#version\<close>, the rest of the line and its newline. A body
  declares a uniform \<open>n\<close> when it holds, after a word boundary, the word \<open>uniform\<close>,
  white space, a type word, white space, the name, and then, each after optional white
  space, an optional bracketed array suffix and a semicolon.
\<close>

definition version_line :: "string \<Rightarrow> bool" where
  "version_line m \<longleftrightarrow>
     (\<exists>ws ln. m = ws @ ''#version'' @ ln @ nl \<and> list_all is_space ws \<and> CHR 0x0A \<notin> set ln)"

definition uniform_declaration :: "string \<Rightarrow> string \<Rightarrow> bool" where
  "uniform_declaration n m \<longleftrightarrow>
     (\<exists>s1 ty s2 s3 arr s4.
        m = ''uniform'' @ s1 @ ty @ s2 @ n @ s3 @ arr @ s4 @ '';''
        \<and> s1 \<noteq> [] \<and> list_all is_space s1 \<and> ty \<noteq> [] \<and> list_all is_word ty
        \<and> s2 \<noteq> [] \<and> list_all is_space s2 \<and> list_all is_space s3
        \<and> (arr = [] \<or> (\<exists>inner. arr = ''['' @ inner @ '']'' \<and> CHR '']'' \<notin> set inner))
        \<and> list_all is_space s4)"

definition declares :: "string \<Rightarrow> string \<Rightarrow> bool" where
  "declares body n \<longleftrightarrow>
     (\<exists>pre m post. body = pre @ m @ post \<and> uniform_declaration n m
        \<and> (pre = [] \<or> \<not> is_word (last pre)))"

text \<open>\<open>b.init(); a.setDependencies([b, b])\<close>: \<open>a\<close> lists \<open>b\<close> twice.\<close>

definition heap_dup :: world where
  "heap_dup = setDependencies 0 [1, 1] (state_of (init 1 heap_ab))"

text \<open>A variable with a \<open>#version\<close> line, a declared sampler \<open>uTex\<close>, an undeclared
  uniform \<open>uDt\<close> and the dependency \<open>b\<close> with a texture.\<close>

definition heap_shader :: world where
  "heap_shader =
     (let w1 = new_var ''b'' 2 2 empty_world;
          w2 = state_of (init 0 w1);
          w3 = state_of (map_sum id snd (new_GPUComputeVariable
                 \<lparr>opt_width = 2, opt_height = 2, opt_format = None, opt_name = ''c'',
                  opt_fragmentShader = ''#version 300 es'' @ nl @ ''uniform sampler2D uTex;'' @ nl
                                         @ ''void main(){}'',
                  opt_uniforms = Some [(''uDt'', UniformData (Num 0) ''f32'')],
                  opt_samplers = Some [(''uTex'', 0)], opt_initialTexture = None\<rparr> w2))
      in setDependencies 1 [0] w3)"


text \<open>The test of \<open>destroyTextures\<close> that spares the externally owned ping texture.\<close>

definition isExternalAlternate :: "world \<Rightarrow> vid \<Rightarrow> bool" where
  "isExternalAlternate w d \<longleftrightarrow>
     getAlternateTexture w d = pingTexture (vars w d) \<and> externalPingTexture (vars w d)"

text \<open>A script of calls, stopping at the first throw.\<close>

definition then_call :: "world res \<Rightarrow> (world \<Rightarrow> world res) \<Rightarrow> world res" where
  "then_call r f = (case r of Inl e \<Rightarrow> Inl e | Inr w \<Rightarrow> f w)"

definition script :: "world \<Rightarrow> (world \<Rightarrow> world res) list \<Rightarrow> world res" where
  "script w fs = foldl then_call (Inr w) fs"



text \<open>
  Two textures of the caller (0 and 1) and two variables \<open>v\<close> (address 0) and \<open>u\<close>
  (address 1); \<open>v\<close> is given texture 0, initialized without self-dependency, destroyed
  while \<open>u\<close> still reads it, given texture 1, and initialized again as a ping-pong variable.
\<close>

definition heap_ext :: world where
  "heap_ext = new_var ''u'' 2 2 (new_var ''v'' 2 2 (new_texture 2 2 (new_texture 2 2 empty_world)))"

definition external_calls :: "(world \<Rightarrow> world res) list" where
  "external_calls =
     [setInitialTexture 0 0, \<lambda>w. Inr (setDependencies 1 [0] w), init 1, init 0, destroy 0,
      setInitialTexture 0 1, \<lambda>w. Inr (setDependencies 0 [0] w), init 0,
      \<lambda>w. Inr (setDependencies 0 [] w)]"

definition heap_ext_before :: world where
  "heap_ext_before = state_of (script heap_ext external_calls)"


fun is_pass :: "event \<Rightarrow> bool" where
  "is_pass (RenderPass v tgt res prm) = True"
| "is_pass e = False"

definition new_passes :: "world \<Rightarrow> world \<Rightarrow> event list" where
  "new_passes w w' = filter is_pass (drop (length (renderLog w)) (renderLog w'))"



text \<open>
  The \<open>jfa\<close> variable of \<open>generateSDFTex\<close> between its passes: the record the constructor
  built, with its two textures, itself as only dependency and dependent, a shader, and
  the present values of \<open>uStepSize\<close>, \<open>uFirst\<close> and \<open>currentIndex\<close>.
\<close>

definition jfa_uniforms :: "nat \<Rightarrow> nat \<Rightarrow> uval \<Rightarrow> uval \<Rightarrow> (string \<times> uniform_data) list" where
  "jfa_uniforms wd ht stepSize first =
     [(''uTexelSize'', UniformData (Vec [1 / real wd, 1 / real ht]) ''vec2<f32>''),
      (''uStepSize'', UniformData stepSize ''f32''),
      (''uFirst'', UniformData first ''f32'')]"

definition jfa_seeded :: "string \<Rightarrow> nat \<Rightarrow> nat \<Rightarrow> tid \<Rightarrow> vid \<Rightarrow> tid \<Rightarrow> gcv" where
  "jfa_seeded jf wd ht tex v p =
     (fresh_gcv (jfa_options jf wd ht tex))
       \<lparr>pingTexture := Some p, pongTexture := Some (Suc p),
        dependencies := [v], dependents := {v}\<rparr>"



text \<open>
  The variables whose \<open>compute\<close> drew a pass between two heaps, in order; the heap a chain
  ended in; and what holds of a chain started with the set \<open>vis\<close> on the heap \<open>w\<close>: the
  log was only extended, no variable was computed twice, none that was already in
  \<open>vis\<close>, and on return the visited set is \<open>vis\<close> plus the computed variables.
\<close>

definition computed :: "world \<Rightarrow> world \<Rightarrow> vid list" where
  "computed w w' = map pass_var (new_passes w w')"

definition chain_world :: "(vid set \<times> world) res \<Rightarrow> world" where
  "chain_world r = (case r of Inl (e, w') \<Rightarrow> w' | Inr (vis', w') \<Rightarrow> w')"






text \<open>A call keeps the textures a variable already has.\<close>

definition tex_kept :: "vid \<Rightarrow> world \<Rightarrow> world \<Rightarrow> bool" where
  "tex_kept v w w' \<longleftrightarrow>
     (\<forall>p. pingTexture (vars w v) = Some p \<longrightarrow> pingTexture (vars w' v) = Some p) \<and>
     (\<forall>q. pongTexture (vars w v) = Some q \<longrightarrow> pongTexture (vars w' v) = Some q)"



section \<open>Basic facts about the heap\<close>

lemma vars_upd_var [simp]: "vars (upd_var v f w) u = (if u = v then f (vars w v) else vars w u)"
  by (simp add: upd_var_def)

lemma upd_var_fields [simp]:
  "textures (upd_var v f w) = textures w"
  "nextTex (upd_var v f w) = nextTex w"
  "nextVar (upd_var v f w) = nextVar w"
  "renderLog (upd_var v f w) = renderLog w"
  "shaderError (upd_var v f w) = shaderError w"
  "regexTest (upd_var v f w) = regexTest w"
  "protoText (upd_var v f w) = protoText w"
  by (simp_all add: upd_var_def)


lemma ensureTextures_other [simp]: "u \<noteq> v \<Longrightarrow> vars (ensureTextures v w) u = vars w u"
  by (simp add: ensureTextures_def createTexture_def Let_def)

lemma ensureTextures_env [simp]:
  "renderLog (ensureTextures v w) = renderLog w"
  "shaderError (ensureTextures v w) = shaderError w"
  "regexTest (ensureTextures v w) = regexTest w"
  "protoText (ensureTextures v w) = protoText w"
  "nextVar (ensureTextures v w) = nextVar w"
  by (simp_all add: ensureTextures_def createTexture_def Let_def)

lemma ensureTextures_ping:
  "pingTexture (vars (ensureTextures v w) v) =
     (case pingTexture (vars w v) of None \<Rightarrow> Some (nextTex w) | Some p \<Rightarrow> Some p)"
  by (simp add: ensureTextures_def createTexture_def Let_def split: option.splits)

lemma ensureTextures_pong:
  "pongTexture (vars (ensureTextures v w) v) =
     (case pongTexture (vars w v) of
        Some q \<Rightarrow> Some q
      | None \<Rightarrow>
          if needsPingPong (vars w v)
          then (case pingTexture (vars w v) of None \<Rightarrow> Some (Suc (nextTex w)) | Some p \<Rightarrow> Some (nextTex w))
          else pingTexture (vars (ensureTextures v w) v))"
  by (simp add: ensureTextures_def createTexture_def Let_def split: option.splits)

text \<open>Apart from the two texture fields the variable is as before.\<close>
lemma ensureTextures_self:
  "vars (ensureTextures v w) v =
     (vars w v)\<lparr>pingTexture := pingTexture (vars (ensureTextures v w) v),
               pongTexture := pongTexture (vars (ensureTextures v w) v)\<rparr>"
  by (simp add: ensureTextures_def createTexture_def Let_def)

lemma createShader_Inl: "createShader u w = Inl (e, w') \<Longrightarrow> w' = w"
  by (auto simp add: createShader_def Let_def
      split: sum.splits option.splits prod.splits assembly_throw.splits)

lemma createShader_Inr:
  "createShader u w = Inr w' \<Longrightarrow>
     \<exists>sh. w' = upd_var u (\<lambda>g. g\<lparr>shader := Some sh, mesh := True\<rparr>) w"
  by (auto simp add: createShader_def Let_def
      split: sum.splits option.splits prod.splits assembly_throw.splits)

lemma init_Inr:
  "init u w = Inr w' \<Longrightarrow>
     \<not> initialized (vars w u) \<and>
     (\<exists>sh. w' = upd_var u (\<lambda>g. g\<lparr>shader := Some sh, mesh := True, initialized := True\<rparr>) (init_pre u w))"
  by (auto simp add: init_def init_pre_def Let_def upd_var_def split: sum.splits if_splits dest!: createShader_Inr)

lemma init_Inl:
  "init u w = Inl (e, w') \<Longrightarrow> w' = w \<or> w' = init_pre u w"
  by (auto simp add: init_def init_pre_def Let_def split: sum.splits if_splits dest!: createShader_Inl)

lemma compute_pass_Inr:
  "compute_pass u w = Inr w' \<Longrightarrow>
     \<exists>sh'. w' = upd_var u (\<lambda>g. g\<lparr>shader := Some sh', currentIndex := 1 - currentIndex g\<rparr>)
                 (w\<lparr>renderLog := renderLog w @
                      [RenderPass u (getAlternateTexture w u) (sh_resources sh') (sh_params sh')]\<rparr>)"
  by (auto simp add: compute_pass_def Let_def upd_var_def getAlternateTexture_def
      split: sum.splits option.splits)

lemma compute_pass_Inl:
  "compute_pass u w = Inl (e, w') \<Longrightarrow>
     w' = w \<or> (\<exists>sh'. w' = upd_var u (\<lambda>g. g\<lparr>shader := Some sh'\<rparr>) w)"
  by (auto simp add: compute_pass_def Let_def split: sum.splits option.splits)

lemma compute_initialized:
  "initialized (vars w u) \<Longrightarrow> compute u w = compute_pass u w"
  by (simp add: compute_def)

lemma compute_uninitialized:
  "\<not> initialized (vars w u) \<Longrightarrow>
     compute u w = (case init u w of Inl e \<Rightarrow> Inl e | Inr w1 \<Rightarrow> compute_pass u w1)"
  by (simp add: compute_def)


lemma compute_pass_fields:
  assumes "compute_pass u w = Inr w'"
  shows "pingTexture (vars w' x) = pingTexture (vars w x)"
    "pongTexture (vars w' x) = pongTexture (vars w x)"
    "initialized (vars w' x) = initialized (vars w x)"
    "dependencies (vars w' x) = dependencies (vars w x)"
    "currentIndex (vars w' x) = (if x = u then 1 - currentIndex (vars w x) else currentIndex (vars w x))"
proof -
  from compute_pass_Inr [OF assms] obtain sh' where
    w': "w' = upd_var u (\<lambda>g. g\<lparr>shader := Some sh', currentIndex := 1 - currentIndex g\<rparr>)
                 (w\<lparr>renderLog := renderLog w @
                      [RenderPass u (getAlternateTexture w u) (sh_resources sh') (sh_params sh')]\<rparr>)"
    by blast
  show "pingTexture (vars w' x) = pingTexture (vars w x)"
    "pongTexture (vars w' x) = pongTexture (vars w x)"
    "initialized (vars w' x) = initialized (vars w x)"
    "dependencies (vars w' x) = dependencies (vars w x)"
    "currentIndex (vars w' x) = (if x = u then 1 - currentIndex (vars w x) else currentIndex (vars w x))"
    by (simp_all add: w')
qed




lemma not_isl_state_of: "\<not> isl r \<Longrightarrow> r = Inr (state_of r)"
  by (cases r) (simp_all add: state_of_def)



section \<open>Seeding after \<open>init\<close> and malformed seeds\<close>




section \<open>The inert particle\<close>

text \<open>
  Claim C5. For a particle whose initialization end time exceeds the phase uniform
  (\<open>initEnd > uPhase\<close>) the total force of the simulation pass is zero; if its stored
  velocity is zero as well, the pass writes back the state it read: position and
  velocity are unchanged. (Floats are reals here: a non-finite \<open>dt\<close> or damping is
  outside the statement.)
\<close>

theorem C5_inert_particle:
  "uPhase env < fst (snd (uAttributes env vUV)) \<Longrightarrow>
     F_total env vUV = (0, 0) \<and>
     (snd (snd (uParticlesState env vUV)) = (0, 0) \<longrightarrow>
        simulation_main env vUV = uParticlesState env vUV)"
  by (auto simp add: F_total_def simulation_main_def Let_def vadd_def vscale_def vdiv_def
       prod_eq_iff)

theorem C5_inert_particle_witness:
  "uPhase env_rest < fst (snd (uAttributes env_rest (0, 0)))
   \<and> F_total env_rest (0, 0) = (0, 0)
   \<and> simulation_main env_rest (0, 0) = (1, 2, 0, 0)"
  using C5_inert_particle [of env_rest "(0, 0)"]
  by (simp add: env_rest_def)

section \<open>Ping-pong alternation\<close>






section \<open>Variables without a self-dependency\<close>

lemma tex_kept_refl [simp]: "tex_kept v w w"
  by (simp add: tex_kept_def)

lemma tex_kept_trans: "tex_kept v w w1 \<Longrightarrow> tex_kept v w1 w2 \<Longrightarrow> tex_kept v w w2"
  by (simp add: tex_kept_def)

lemma tex_kept_ensureTextures: "tex_kept v w (ensureTextures u w)"
  by (cases "u = v") (auto simp add: tex_kept_def ensureTextures_ping ensureTextures_pong)

lemma tex_kept_init_pre: "tex_kept v w (init_pre u w)"
  unfolding init_pre_def
  by (rule tex_kept_trans [OF _ tex_kept_ensureTextures]) (simp add: tex_kept_def)

lemma tex_kept_init: "tex_kept v w (state_of (init u w))"
proof (cases "init u w")
  case (Inl ew)
  then obtain e w' where "init u w = Inl (e, w')" by (cases ew) auto
  with init_Inl [OF this] show ?thesis by (auto simp add: state_of_def tex_kept_init_pre)
next
  case (Inr w')
  from init_Inr [OF Inr] obtain sh where
    "w' = upd_var u (\<lambda>g. g\<lparr>shader := Some sh, mesh := True, initialized := True\<rparr>) (init_pre u w)"
    by blast
  then have "tex_kept v (init_pre u w) w'" by (simp add: tex_kept_def)
  with Inr show ?thesis by (simp add: state_of_def tex_kept_trans [OF tex_kept_init_pre])
qed

lemma tex_kept_compute_pass: "tex_kept v w (state_of (compute_pass u w))"
proof (cases "compute_pass u w")
  case (Inl ew)
  then obtain e w' where "compute_pass u w = Inl (e, w')" by (cases ew) auto
  with compute_pass_Inl [OF this] show ?thesis by (auto simp add: state_of_def tex_kept_def)
next
  case (Inr w')
  with compute_pass_fields(1,2) [OF Inr] show ?thesis by (simp add: state_of_def tex_kept_def)
qed

lemma tex_kept_compute: "tex_kept v w (state_of (compute u w))"
proof (cases "initialized (vars w u)")
  case True
  then show ?thesis by (simp add: compute_initialized tex_kept_compute_pass)
next
  case False
  show ?thesis
  proof (cases "init u w")
    case (Inl ew)
    with False tex_kept_init [of v w u] show ?thesis
      by (simp add: compute_uninitialized state_of_def)
  next
    case (Inr w1)
    with False tex_kept_init [of v w u] tex_kept_compute_pass [of v w1 u] show ?thesis
      by (simp add: compute_uninitialized state_of_def tex_kept_trans)
  qed
qed

lemma fold_dependents_frame:
  "(vars (fold (\<lambda>d. upd_var d (\<lambda>g. g\<lparr>dependents := F g\<rparr>)) ds w) x)\<lparr>dependents := {}\<rparr>
     = (vars w x)\<lparr>dependents := {}\<rparr>"
  by (induction ds arbitrary: w) auto

lemma setDependencies_frame:
  "(vars (setDependencies u deps w) x)\<lparr>dependents := {}, dependencies := []\<rparr>
     = (vars w x)\<lparr>dependents := {}, dependencies := []\<rparr>"
proof -
  let ?w1 = "fold (\<lambda>d. upd_var d (\<lambda>g. g\<lparr>dependents := dependents g - {u}\<rparr>)) (dependencies (vars w u)) w"
  let ?w2 = "upd_var u (\<lambda>g. g\<lparr>dependencies := deps\<rparr>) ?w1"
  have "(vars (setDependencies u deps w) x)\<lparr>dependents := {}\<rparr> = (vars ?w2 x)\<lparr>dependents := {}\<rparr>"
    unfolding setDependencies_def Let_def by (rule fold_dependents_frame)
  then have "(vars (setDependencies u deps w) x)\<lparr>dependents := {}, dependencies := []\<rparr>
      = (vars ?w2 x)\<lparr>dependents := {}, dependencies := []\<rparr>"
    by metis
  also have "\<dots> = (vars ?w1 x)\<lparr>dependents := {}, dependencies := []\<rparr>"
    by simp
  also have "\<dots> = (vars w x)\<lparr>dependents := {}, dependencies := []\<rparr>"
    using fold_dependents_frame [of "\<lambda>g. dependents g - {u}" "dependencies (vars w u)" w x]
    by metis
  finally show ?thesis .
qed

lemma tex_kept_setDependencies: "tex_kept v w (setDependencies u deps w)"
proof -
  have "pingTexture ((vars (setDependencies u deps w) v)\<lparr>dependents := {}, dependencies := []\<rparr>)
          = pingTexture ((vars w v)\<lparr>dependents := {}, dependencies := []\<rparr>)"
    "pongTexture ((vars (setDependencies u deps w) v)\<lparr>dependents := {}, dependencies := []\<rparr>)
          = pongTexture ((vars w v)\<lparr>dependents := {}, dependencies := []\<rparr>)"
    by (simp_all only: setDependencies_frame)
  then show ?thesis by (simp add: tex_kept_def)
qed

lemma tex_kept_log: "tex_kept v w (w\<lparr>renderLog := l\<rparr>)"
  by (simp add: tex_kept_def)

lemma tex_kept_fillTexture: "tex_kept v w (state_of (fillTexture u data w))"
  by (auto simp add: fillTexture_def state_of_def Let_def copyTexture_def
      intro!: tex_kept_trans [OF tex_kept_ensureTextures tex_kept_log])

lemma tex_kept_fillTextureFrom: "tex_kept v w (state_of (fillTextureFrom u src w))"
  by (auto simp add: fillTextureFrom_def state_of_def Let_def copyTexture_def
      intro!: tex_kept_trans [OF tex_kept_ensureTextures tex_kept_log])

lemma tex_kept_perform: "tex_kept v w (perform c w)"
  by (cases c)
     (simp_all add: tex_kept_fillTexture tex_kept_fillTextureFrom tex_kept_setDependencies
        tex_kept_init tex_kept_compute)

lemma tex_kept_perform_all: "tex_kept v w (perform_all calls w)"
  unfolding perform_all_def
proof (induction calls arbitrary: w)
  case Nil
  show ?case by simp
next
  case (Cons c calls)
  show ?case
    using tex_kept_trans [OF tex_kept_perform [of v w c] Cons.IH [of "perform c w"]] by simp
qed

lemma init_pre_single:
  assumes "pongTexture (vars w v) = None" "v \<notin> set (dependencies (vars w v))"
  shows "pongTexture (vars (init_pre v w) v) = pingTexture (vars (init_pre v w) v)"
    "pingTexture (vars (init_pre v w) v) \<noteq> None"
  using assms
  by (simp_all add: init_pre_def ensureTextures_ping ensureTextures_pong split: option.splits)

lemma init_state_single:
  assumes "\<not> initialized (vars w v)" "pongTexture (vars w v) = None"
    "v \<notin> set (dependencies (vars w v))"
  shows "\<exists>p. pingTexture (vars (state_of (init v w)) v) = Some p
            \<and> pongTexture (vars (state_of (init v w)) v) = Some p"
proof -
  from init_pre_single [OF assms(2,3)] obtain p where
    p: "pingTexture (vars (init_pre v w) v) = Some p" "pongTexture (vars (init_pre v w) v) = Some p"
    by auto
  show ?thesis
  proof (cases "init v w")
    case (Inl ew)
    then obtain e w' where i: "init v w = Inl (e, w')" by (cases ew) auto
    have "w' = init_pre v w"
      using i assms(1) by (auto simp add: init_def init_pre_def Let_def split: sum.splits dest!: createShader_Inl)
    with p i show ?thesis by (simp add: state_of_def)
  next
    case (Inr w')
    from init_Inr [OF Inr] p Inr show ?thesis by (auto simp add: state_of_def)
  qed
qed


text \<open>
  Claim C3, as amended. If \<open>init\<close> runs on a variable that does not list itself and whose
  second texture is still unallocated (no \<open>fillTexture\<close> / \<open>fillTextureFrom\<close> before),
  then from that \<open>init\<close> on, after any sequence of \<open>fillTexture\<close>, \<open>fillTextureFrom\<close>,
  \<open>setDependencies\<close>, \<open>init\<close> and \<open>compute\<close> calls on any variables, it has one texture:
  \<open>getCurrentTexture\<close> and \<open>getAlternateTexture\<close> return the same texture.
\<close>

theorem C3_single_texture:
  assumes "\<not> initialized (vars w v)" "pongTexture (vars w v) = None"
    "v \<notin> set (dependencies (vars w v))"
  shows "getCurrentTexture (perform_all calls (state_of (init v w))) v
           = getAlternateTexture (perform_all calls (state_of (init v w))) v
         \<and> getCurrentTexture (perform_all calls (state_of (init v w))) v \<noteq> None"
  using init_state_single [OF assms] tex_kept_perform_all [of v "state_of (init v w)" calls]
  by (auto simp add: tex_kept_def getCurrentTexture_def getAlternateTexture_def)

lemma heap_ab_fresh:
  "\<not> initialized (vars heap_ab 0)" "pongTexture (vars heap_ab 0) = None"
  "0 \<notin> set (dependencies (vars heap_ab 0))"
  by code_simp+

theorem C3_single_texture_witness:
  "\<not> initialized (vars heap_ab 0) \<and> pongTexture (vars heap_ab 0) = None
   \<and> 0 \<notin> set (dependencies (vars heap_ab 0))
   \<and> getCurrentTexture
        (perform_all [Compute 0, SetDependencies 1 [0], Compute 1, Compute 0]
           (state_of (init 0 heap_ab))) 0
     = getAlternateTexture
        (perform_all [Compute 0, SetDependencies 1 [0], Compute 1, Compute 0]
           (state_of (init 0 heap_ab))) 0"
  using C3_single_texture [of heap_ab 0 "[Compute 0, SetDependencies 1 [0], Compute 1, Compute 0]"]
  by (simp add: heap_ab_fresh)


text \<open>
  Claim C3 as stated fails: \<open>fillTexture\<close> before \<open>init\<close> allocates both textures
  (\<open>needsPingPong\<close> is \<open>true\<close> until \<open>init\<close>), so a variable without self-dependency
  then has two distinct textures.
\<close>

theorem C3_counterexample:
  "0 \<notin> set (dependencies (vars (perform_all [FillTexture 0 (replicate 16 0), Init 0, Compute 0] heap_ab) 0))
   \<and> getCurrentTexture (perform_all [FillTexture 0 (replicate 16 0), Init 0, Compute 0] heap_ab) 0
       \<noteq> getAlternateTexture (perform_all [FillTexture 0 (replicate 16 0), Init 0, Compute 0] heap_ab) 0"
  by code_simp

section \<open>Computing after \<open>destroy\<close>\<close>

lemma createShader_Inr_code:
  "createShader u w = Inr w' \<Longrightarrow>
     \<exists>code res prm. codeToInject w u = Inr code \<and>
       w' = upd_var u (\<lambda>g. g\<lparr>shader := Some \<lparr>sh_fragment = injectShaderCode (fragmentShader (vars w u)) code,
                                              sh_resources = res, sh_params = prm\<rparr>,
                              mesh := True\<rparr>) w"
  by (auto simp add: createShader_def Let_def
      split: sum.splits option.splits prod.splits assembly_throw.splits)


lemma msg_prefix_init_pre [simp]: "msg_prefix (init_pre u w) v = msg_prefix w v"
proof -
  have "name (vars (init_pre u w) v) = name (vars w v)"
    by (cases "v = u") (simp_all add: init_pre_def ensureTextures_def createTexture_def Let_def)
  then show ?thesis by (simp add: msg_prefix_def)
qed











lemma init_pre_static:
  "fragmentShader (vars (init_pre u w) x) = fragmentShader (vars w x)"
  "uniforms (vars (init_pre u w) x) = uniforms (vars w x)"
  "samplers (vars (init_pre u w) x) = samplers (vars w x)"
  "dependencies (vars (init_pre u w) x) = dependencies (vars w x)"
  "width (vars (init_pre u w) x) = width (vars w x)"
  "height (vars (init_pre u w) x) = height (vars w x)"
  "name (vars (init_pre u w) x) = name (vars w x)"
  by (cases "x = u"; simp add: init_pre_def ensureTextures_def createTexture_def Let_def)+

lemma init_pre_engine [simp]:
  "regexTest (init_pre u w) = regexTest w" "protoText (init_pre u w) = protoText w"
  by (simp_all add: init_pre_def)

lemma assembly_env:
  assumes "regexTest w' = regexTest w" "protoText w' = protoText w"
  shows "isUniformDeclared w' fs n = isUniformDeclared w fs n"
    "sampler_loop w' fs ns acc = sampler_loop w fs ns acc"
    "samplerDeclarations w' fs dn sn = samplerDeclarations w fs dn sn"
    "lookup_type w' ty = lookup_type w ty"
    "uniformDeclarations w' fs us acc = uniformDeclarations w fs us acc"
proof -
  show d: "isUniformDeclared w' fs n = isUniformDeclared w fs n" for n
    by (simp add: isUniformDeclared_def assms)
  show l: "sampler_loop w' fs ns acc = sampler_loop w fs ns acc" for ns acc
    by (induction ns arbitrary: acc) (simp_all add: d split: sum.splits)
  show "samplerDeclarations w' fs dn sn = samplerDeclarations w fs dn sn"
    by (simp add: samplerDeclarations_def l split: sum.splits)
  show t: "lookup_type w' ty = lookup_type w ty" for ty
    by (simp add: lookup_type_def assms split: option.splits)
  show "uniformDeclarations w' fs us acc = uniformDeclarations w fs us acc"
    by (induction us arbitrary: acc) (auto simp add: d t split: sum.splits option.splits)
qed

lemma codeToInject_init_pre [simp]: "codeToInject (init_pre u w) v = codeToInject w v"
  by (simp add: codeToInject_def Let_def init_pre_static
      assembly_env [of "init_pre u w" w] split: sum.splits)





section \<open>Shader assembly\<close>

lemma sampler_loop_eq:
  "sampler_loop w fs names acc = Inr r \<Longrightarrow>
     r = acc @ concat (map sampler_line
                        (filter (\<lambda>n. isUniformDeclared w fs n \<noteq> Inr True) names))"
proof (induction names arbitrary: acc)
  case Nil
  then show ?case by simp
next
  case (Cons a names)
  then obtain d where d: "isUniformDeclared w fs a = Inr d"
    and rest: "sampler_loop w fs names (if \<not> d then acc @ sampler_line a else acc) = Inr r"
    by (auto split: sum.splits)
  from Cons.IH [OF rest] d show ?case by (cases d) simp_all
qed

lemma samplerDeclarations_eq:
  "samplerDeclarations w fs depNames samplerNames = Inr r \<Longrightarrow>
     r = concat (map sampler_line
                  (filter (\<lambda>n. isUniformDeclared w fs n \<noteq> Inr True) (depNames @ samplerNames)))"
  by (auto simp add: samplerDeclarations_def split: sum.splits dest!: sampler_loop_eq)

lemma uniformDeclarations_eq:
  "uniformDeclarations w fs us acc = Inr r \<Longrightarrow>
     r = acc @ concat (map (\<lambda>(k, u). uniform_line (glsl_type w u) k)
                        (filter (\<lambda>(k, u). isUniformDeclared w fs k \<noteq> Inr True) us))"
  by (induction w fs us acc rule: uniformDeclarations.induct)
     (auto simp add: glsl_type_def split: if_splits option.splits sum.splits)

lemma codeToInject_spec:
  "codeToInject w v = Inr code \<Longrightarrow> code = spec_declarations w v"
  by (auto simp add: codeToInject_def spec_declarations_def injected_samplers_def
      injected_uniforms_def sampler_names_def declared_def Let_def
      split: sum.splits dest!: uniformDeclarations_eq samplerDeclarations_eq)

lemma strip_prefix_Some: "strip_prefix p s = Some r \<Longrightarrow> s = p @ r"
  by (induction p s rule: strip_prefix.induct) (auto split: if_splits)

lemma version_match_Some:
  assumes "version_match s = Some (m, rest)"
  shows "s = m @ rest"
    "\<exists>ws ln. m = ws @ ''#version'' @ ln @ nl \<and> (\<forall>c\<in>set ws. is_space c) \<and> CHR 0x0A \<notin> set ln"
proof -
  from assms obtain r c where
    sp: "strip_prefix ''#version'' (dropWhile is_space s) = Some r"
    and dw: "dropWhile (\<lambda>c. c \<noteq> CHR 0x0A) r = c # rest"
    and m: "m = takeWhile is_space s @ ''#version'' @ takeWhile (\<lambda>c. c \<noteq> CHR 0x0A) r @ [c]"
    by (auto simp add: version_match_def split: option.splits list.splits)
  from dw have c: "c = CHR 0x0A"
    by (simp add: dropWhile_eq_Cons_conv)
  have "s = takeWhile is_space s @ dropWhile is_space s" by simp
  also have "dropWhile is_space s = ''#version'' @ r" using strip_prefix_Some [OF sp] .
  also have "r = takeWhile (\<lambda>c. c \<noteq> CHR 0x0A) r @ dropWhile (\<lambda>c. c \<noteq> CHR 0x0A) r" by simp
  finally show "s = m @ rest" using m dw by simp
  have "\<forall>c\<in>set (takeWhile is_space s). is_space c" by (auto dest: set_takeWhileD)
  moreover have "CHR 0x0A \<notin> set (takeWhile (\<lambda>c. c \<noteq> CHR 0x0A) r)" by (auto dest: set_takeWhileD)
  ultimately show "\<exists>ws ln. m = ws @ ''#version'' @ ln @ nl \<and> (\<forall>c\<in>set ws. is_space c) \<and> CHR 0x0A \<notin> set ln"
    using m c by blast
qed

lemma injected_names_distinct:
  assumes "distinct (sampler_names w v @ map fst (uniforms (vars w v)))"
  shows "distinct (injected_names w v)"
proof -
  have "injected_names w v
          = filter (\<lambda>n. \<not> declared w v n)
              (sampler_names w v @ map fst (uniforms (vars w v)))"
    by (simp add: injected_names_def injected_samplers_def injected_uniforms_def
        filter_map comp_def case_prod_unfold)
  with assms show ?thesis by (simp only: distinct_filter)
qed

lemma word_not_space: "is_word c \<Longrightarrow> \<not> is_space c"
  by (auto simp add: is_word_def is_space_def Let_def)

lemma not_space_chars [simp]:
  "\<not> is_space (CHR '';'')" "\<not> is_space (CHR ''['')" "\<not> is_space (CHR ''#'')"
  by (simp_all add: is_space_def)

lemma strip_prefix_iff: "strip_prefix p s = Some r \<longleftrightarrow> s = p @ r"
  by (induction p s rule: strip_prefix.induct) auto

lemma strip_prefix_append [simp]: "strip_prefix p (p @ r) = Some r"
  by (simp add: strip_prefix_iff)

lemma dropWhile_all: "list_all P xs \<Longrightarrow> \<not> P y \<Longrightarrow> dropWhile P (xs @ y # ys) = y # ys"
  by (induction xs) auto

lemma takeWhile_all: "list_all P xs \<Longrightarrow> \<not> P y \<Longrightarrow> takeWhile P (xs @ y # ys) = xs"
  by (induction xs) auto

lemma split_run:
  "s = takeWhile P s @ dropWhile P s \<and> list_all P (takeWhile P s)"
  by (auto simp add: list_all_iff dest: set_takeWhileD)

lemma decl_tail_iff:
  "decl_tail s \<longleftrightarrow>
     (\<exists>s3 arr s4 post. s = s3 @ arr @ s4 @ '';'' @ post \<and> list_all is_space s3
        \<and> (arr = [] \<or> (\<exists>inner. arr = ''['' @ inner @ '']'' \<and> CHR '']'' \<notin> set inner))
        \<and> list_all is_space s4)"
  (is "?L \<longleftrightarrow> ?R")
proof
  assume l: ?L
  let ?s3 = "takeWhile is_space s"
  from l obtain c r where d: "dropWhile is_space s = c # r"
    by (auto simp add: decl_tail_def split: list.splits)
  have s: "s = ?s3 @ c # r" and a3: "list_all is_space ?s3"
    using split_run [of s is_space] d by simp_all
  show ?R
  proof (cases "c = CHR '';''")
    case True
    with s a3 show ?thesis
      by (intro exI [of _ ?s3] exI [of _ "[]"] exI [of _ r]) simp
  next
    case False
    with l d have c: "c = CHR ''[''" by (auto simp add: decl_tail_def split: if_splits)
    with l d False obtain c' r' where d2: "dropWhile (\<lambda>c. c \<noteq> CHR '']'') r = c' # r'"
      and st: "starts_with (\<lambda>c. c = CHR '';'') (dropWhile is_space r')"
      by (auto simp add: decl_tail_def split: list.splits)
    let ?inner = "takeWhile (\<lambda>c. c \<noteq> CHR '']'') r"
    from d2 have c': "c' = CHR '']''" by (simp add: dropWhile_eq_Cons_conv)
    have r: "r = ?inner @ CHR '']'' # r'" using split_run [of r "\<lambda>c. c \<noteq> CHR '']''"] d2 c' by simp
    have ni: "CHR '']'' \<notin> set ?inner" by (auto dest: set_takeWhileD)
    let ?s4 = "takeWhile is_space r'"
    from st obtain post where d3: "dropWhile is_space r' = CHR '';'' # post"
      by (auto simp add: starts_with_def split: list.splits)
    have r': "r' = ?s4 @ CHR '';'' # post" and a4: "list_all is_space ?s4"
      using split_run [of r' is_space] d3 by simp_all
    have "s = ?s3 @ (''['' @ ?inner @ '']'') @ ?s4 @ '';'' @ post"
      using s c r r' by simp
    with a3 a4 ni show ?thesis by blast
  qed
next
  assume ?R
  then obtain s3 arr s4 post where s: "s = s3 @ arr @ s4 @ '';'' @ post"
    and a3: "list_all is_space s3" and a4: "list_all is_space s4"
    and arr: "arr = [] \<or> (\<exists>inner. arr = ''['' @ inner @ '']'' \<and> CHR '']'' \<notin> set inner)"
    by blast
  from arr show ?L
  proof
    assume "arr = []"
    with s have "s = (s3 @ s4) @ CHR '';'' # post" by simp
    moreover from a3 a4 have "list_all is_space (s3 @ s4)" by simp
    ultimately have "dropWhile is_space s = CHR '';'' # post"
      by (simp only: dropWhile_all not_space_chars not_False_eq_True)
    then show ?L by (simp add: decl_tail_def)
  next
    assume "\<exists>inner. arr = ''['' @ inner @ '']'' \<and> CHR '']'' \<notin> set inner"
    then obtain inner where ar: "arr = ''['' @ inner @ '']''" and ni: "CHR '']'' \<notin> set inner"
      by blast
    from s ar have "s = s3 @ CHR ''['' # (inner @ CHR '']'' # s4 @ CHR '';'' # post)" by simp
    with a3 have d1: "dropWhile is_space s = CHR ''['' # (inner @ CHR '']'' # s4 @ CHR '';'' # post)"
      by (simp only: dropWhile_all not_space_chars not_False_eq_True)
    from ni have "list_all (\<lambda>c. c \<noteq> CHR '']'') inner" by (auto simp add: list_all_iff)
    then have d2: "dropWhile (\<lambda>c. c \<noteq> CHR '']'') (inner @ CHR '']'' # s4 @ CHR '';'' # post)
                 = CHR '']'' # s4 @ CHR '';'' # post"
      by (rule dropWhile_all) simp
    from a4 have d3: "dropWhile is_space (s4 @ CHR '';'' # post) = CHR '';'' # post"
      by (rule dropWhile_all) simp
    show ?L by (simp add: decl_tail_def d1 d2 d3 starts_with_def)
  qed
qed

lemma name_here_iff: "name_here n s \<longleftrightarrow> (\<exists>t. s = n @ t \<and> decl_tail t)"
  by (auto simp add: name_here_def strip_prefix_iff split: option.splits)

lemma spaces_then_name_iff:
  "spaces_then_name n s \<longleftrightarrow>
     (\<exists>s2 t. s = s2 @ n @ t \<and> s2 \<noteq> [] \<and> list_all is_space s2 \<and> decl_tail t)"
proof (induction s)
  case Nil
  then show ?case by simp
next
  case (Cons c cs)
  show ?case (is "?L \<longleftrightarrow> ?R")
  proof
    assume l: ?L
    then have c: "is_space c" by simp
    from l consider "name_here n cs" | "spaces_then_name n cs" by auto
    then show ?R
    proof cases
      case 1
      then obtain t where "cs = n @ t" "decl_tail t" by (auto simp add: name_here_iff)
      with c show ?thesis by (intro exI [of _ "[c]"] exI [of _ t]) simp
    next
      case 2
      with Cons.IH obtain s2 t where "cs = s2 @ n @ t" "list_all is_space s2" "decl_tail t"
        by blast
      with c show ?thesis by (intro exI [of _ "c # s2"] exI [of _ t]) simp
    qed
  next
    assume ?R
    then obtain s2 t where s: "c # cs = s2 @ n @ t" and ne: "s2 \<noteq> []"
      and a: "list_all is_space s2" and d: "decl_tail t" by blast
    from ne obtain s2' where s2: "s2 = c # s2'" using s by (cases s2) auto
    with s have cs: "cs = s2' @ n @ t" by simp
    from a s2 have c: "is_space c" and a': "list_all is_space s2'" by simp_all
    show ?L
    proof (cases "s2' = []")
      case True
      with cs d have "name_here n cs" by (auto simp add: name_here_iff)
      with c show ?thesis by simp
    next
      case False
      with cs a' d Cons.IH have "spaces_then_name n cs" by blast
      with c show ?thesis by simp
    qed
  qed
qed

lemma uniform_decl_here_iff:
  "uniform_decl_here n s \<longleftrightarrow> (\<exists>m post. s = m @ post \<and> uniform_declaration n m)"
  (is "?L \<longleftrightarrow> ?R")
proof
  assume l: ?L
  then obtain r1 where s: "s = ''uniform'' @ r1"
    and st1: "starts_with is_space r1"
    and st2: "starts_with is_word (dropWhile is_space r1)"
    and sn: "spaces_then_name n (dropWhile is_word (dropWhile is_space r1))"
    by (auto simp add: uniform_decl_here_def Let_def strip_prefix_iff split: option.splits)
  let ?s1 = "takeWhile is_space r1" and ?r2 = "dropWhile is_space r1"
  let ?ty = "takeWhile is_word ?r2" and ?r3 = "dropWhile is_word ?r2"
  from st1 have n1: "?s1 \<noteq> []" by (cases r1) (simp_all add: starts_with_def)
  from st2 have n2: "?ty \<noteq> []" by (cases ?r2) (simp_all add: starts_with_def)
  have a1: "list_all is_space ?s1" and a2: "list_all is_word ?ty"
    using split_run [of r1 is_space] split_run [of ?r2 is_word] by simp_all
  from sn obtain s2 t where r3: "?r3 = s2 @ n @ t" and n3: "s2 \<noteq> []"
    and a3: "list_all is_space s2" and dt: "decl_tail t"
    by (auto simp add: spaces_then_name_iff)
  from dt obtain s3 arr s4 post where t: "t = s3 @ arr @ s4 @ '';'' @ post"
    and a4: "list_all is_space s3" and a5: "list_all is_space s4"
    and arr: "arr = [] \<or> (\<exists>inner. arr = ''['' @ inner @ '']'' \<and> CHR '']'' \<notin> set inner)"
    unfolding decl_tail_iff by blast
  have "r1 = ?s1 @ ?ty @ ?r3" by simp
  with s r3 t have "s = (''uniform'' @ ?s1 @ ?ty @ s2 @ n @ s3 @ arr @ s4 @ '';'') @ post"
    by simp
  moreover have "uniform_declaration n (''uniform'' @ ?s1 @ ?ty @ s2 @ n @ s3 @ arr @ s4 @ '';'')"
    unfolding uniform_declaration_def using n1 n2 n3 a1 a2 a3 a4 a5 arr by blast
  ultimately show ?R by blast
next
  assume ?R
  then obtain m post s1 ty s2 s3 arr s4 where s: "s = m @ post"
    and m: "m = ''uniform'' @ s1 @ ty @ s2 @ n @ s3 @ arr @ s4 @ '';''"
    and n1: "s1 \<noteq> []" and a1: "list_all is_space s1" and n2: "ty \<noteq> []"
    and a2: "list_all is_word ty" and n3: "s2 \<noteq> []" and a3: "list_all is_space s2"
    and a4: "list_all is_space s3" and a5: "list_all is_space s4"
    and arr: "arr = [] \<or> (\<exists>inner. arr = ''['' @ inner @ '']'' \<and> CHR '']'' \<notin> set inner)"
    unfolding uniform_declaration_def by blast
  define t where "t = s3 @ arr @ s4 @ '';'' @ post"
  define r3 where "r3 = s2 @ n @ t"
  from n2 obtain a ty' where ty: "ty = a # ty'" by (cases ty) auto
  from n3 obtain b s2' where s2: "s2 = b # s2'" by (cases s2) auto
  from n1 obtain c s1' where s1: "s1 = c # s1'" by (cases s1) auto
  from a2 ty have wa: "is_word a" by simp
  from a3 s2 have sb: "is_space b" by simp
  have s': "s = ''uniform'' @ (s1 @ a # (ty' @ r3))"
    by (simp add: s m ty r3_def t_def)
  have d1: "dropWhile is_space (s1 @ a # (ty' @ r3)) = a # (ty' @ r3)"
    using a1 word_not_space [OF wa] by (rule dropWhile_all)
  have "dropWhile is_word (ty @ b # (s2' @ n @ t)) = b # (s2' @ n @ t)"
    using a2 word_not_space [of b] sb by (intro dropWhile_all) auto
  then have d2: "dropWhile is_word (a # (ty' @ r3)) = r3"
    by (simp add: ty r3_def s2)
  have dt: "decl_tail t" unfolding decl_tail_iff t_def using a4 a5 arr by blast
  have sn: "spaces_then_name n r3"
    unfolding spaces_then_name_iff r3_def using n3 a3 dt by blast
  have st1: "starts_with is_space (s1 @ a # (ty' @ r3))"
    using a1 by (simp add: s1 starts_with_def)
  have st2: "starts_with is_word (a # (ty' @ r3))"
    using wa by (simp add: starts_with_def)
  show ?L
    unfolding uniform_decl_here_def s' strip_prefix_append
    by (simp only: option.case Let_def st1 d1 d2 st2 sn simp_thms)
qed

lemma decl_search_iff:
  "decl_search n pw body \<longleftrightarrow>
     (\<exists>pre m post. body = pre @ m @ post \<and> uniform_declaration n m
        \<and> (if pre = [] then \<not> pw else \<not> is_word (last pre)))"
proof (induction body arbitrary: pw)
  case Nil
  have "\<not> uniform_declaration n []" by (simp add: uniform_declaration_def)
  then show ?case by auto
next
  case (Cons c cs)
  have here: "(\<exists>m post. c # cs = m @ post \<and> uniform_declaration n m)
      \<longleftrightarrow> uniform_decl_here n (c # cs)"
    by (simp add: uniform_decl_here_iff)
  show ?case (is "?L \<longleftrightarrow> ?R")
  proof
    assume ?L
    then consider "\<not> pw" "uniform_decl_here n (c # cs)" | "decl_search n (is_word c) cs"
      by auto
    then show ?R
    proof cases
      case 1
      with here obtain m post where "c # cs = m @ post" "uniform_declaration n m" by auto
      with 1(1) show ?thesis by (intro exI [of _ "[]"] exI [of _ m] exI [of _ post]) simp
    next
      case 2
      with Cons.IH obtain pre m post where b: "cs = pre @ m @ post" and u: "uniform_declaration n m"
        and p: "if pre = [] then \<not> is_word c else \<not> is_word (last pre)" by blast
      from b have "c # cs = (c # pre) @ m @ post" by simp
      moreover from p have "\<not> is_word (last (c # pre))" by (simp split: if_splits)
      ultimately show ?thesis using u
        by (intro exI [of _ "c # pre"] exI [of _ m] exI [of _ post]) simp
    qed
  next
    assume ?R
    then obtain pre m post where b: "c # cs = pre @ m @ post" and u: "uniform_declaration n m"
      and p: "if pre = [] then \<not> pw else \<not> is_word (last pre)" by blast
    show ?L
    proof (cases pre)
      case Nil
      with b have "c # cs = m @ post" by simp
      with u here have "uniform_decl_here n (c # cs)" by blast
      with p Nil show ?thesis by simp
    next
      case (Cons c' pre')
      with b have cs: "cs = pre' @ m @ post" and c': "c' = c" by simp_all
      from p Cons c' have "if pre' = [] then \<not> is_word c else \<not> is_word (last pre')"
        by (simp split: if_splits)
      with cs u Cons.IH have "decl_search n (is_word c) cs" by blast
      then show ?thesis by simp
    qed
  qed
qed

lemma isUniformDeclared_declares:
  "\<not> list_ex regex_syntax_char n \<Longrightarrow>
     isUniformDeclared w body n = Inr (declares body n)"
proof -
  assume p: "\<not> list_ex regex_syntax_char n"
  have e: "\<And>pre. (if pre = [] then \<not> False else \<not> is_word (last pre))
             = (pre = [] \<or> \<not> is_word (last pre))" by simp
  have "decl_search n False body \<longleftrightarrow> declares body n"
    unfolding decl_search_iff declares_def e by (rule refl)
  with p show ?thesis by (simp add: isUniformDeclared_def)
qed

lemma version_match_iff:
  "version_match s = Some (m, rest) \<longleftrightarrow> version_line m \<and> s = m @ rest"
  (is "?L \<longleftrightarrow> ?R")
proof
  assume ?L
  from version_match_Some [OF this] show ?R by (auto simp add: version_line_def list_all_iff)
next
  assume ?R
  then obtain ws ln where m: "m = ws @ ''#version'' @ ln @ nl" and a: "list_all is_space ws"
    and n: "CHR 0x0A \<notin> set ln" and s: "s = m @ rest"
    by (auto simp add: version_line_def)
  define r where "r = ln @ CHR 0x0A # rest"
  have s': "s = ws @ CHR ''#'' # (''version'' @ r)" by (simp add: s m r_def)
  have d1: "dropWhile is_space s = ''#version'' @ r"
    unfolding s' using a by (subst dropWhile_all) simp_all
  have t1: "takeWhile is_space s = ws"
    unfolding s' using a by (subst takeWhile_all) simp_all
  from n have al: "list_all (\<lambda>c. c \<noteq> CHR 0x0A) ln" by (auto simp add: list_all_iff)
  have d2: "dropWhile (\<lambda>c. c \<noteq> CHR 0x0A) r = CHR 0x0A # rest"
    unfolding r_def using al by (rule dropWhile_all) simp
  have t2: "takeWhile (\<lambda>c. c \<noteq> CHR 0x0A) r = ln"
    unfolding r_def using al by (rule takeWhile_all) simp
  have "version_match s = Some (ws @ ''#version'' @ ln @ [CHR 0x0A], rest)"
    unfolding version_match_def d1 strip_prefix_append by (simp only: d2 t1 t2 option.case list.case)
  then show ?L by (simp add: m)
qed

lemma version_match_None:
  "version_match s = None \<longleftrightarrow> \<not> (\<exists>m rest. version_line m \<and> s = m @ rest)"
proof (cases "version_match s")
  case None
  with version_match_iff [of s] show ?thesis by auto
next
  case (Some mr)
  then obtain m rest where "version_match s = Some (m, rest)" by (cases mr) auto
  with version_match_iff [of s m rest] show ?thesis by auto
qed

lemma injected_names_filter:
  "injected_names w v
     = filter (\<lambda>n. \<not> declared w v n) (sampler_names w v @ map fst (uniforms (vars w v)))"
  by (simp add: injected_names_def injected_samplers_def injected_uniforms_def
      filter_map comp_def case_prod_unfold)

lemma injectShaderCode_version:
  assumes "version_line m" "fs = m @ rest"
  shows "injectShaderCode fs code = m @ code @ rest"
proof -
  from assms have "version_match fs = Some (m, rest)" by (simp add: version_match_iff)
  then show ?thesis by (simp add: injectShaderCode_def)
qed

lemma injectShaderCode_no_version:
  assumes "\<not> (\<exists>m rest. version_line m \<and> fs = m @ rest)"
  shows "injectShaderCode fs code = code @ fs"
proof -
  from assms have "version_match fs = None" by (simp add: version_match_None)
  then show ?thesis by (simp add: injectShaderCode_def)
qed

lemma declared_declares:
  "\<not> list_ex regex_syntax_char n \<Longrightarrow> declared w v n \<longleftrightarrow> declares (fragmentShader (vars w v)) n"
  by (simp add: declared_def isUniformDeclared_declares)

text \<open>
  Claim C7, as amended. When \<open>createShader\<close> succeeds, the compiled fragment source is the
  body with the generated text inserted immediately after its leading \<open>#version\<close> line
  when the body starts with one, and placed before the body otherwise. The generated
  text is the \<open>resolution\<close> define followed by one sampler declaration for every entry of
  the dependency names and sampler keys, and one uniform declaration for every uniform
  key, that the body does not declare; for a name without syntax characters of regular
  expressions, the body declares it exactly when it holds \<open>uniform\<close>, a type word and
  the name, with an optional array suffix, up to the semicolon. A declared name is not
  injected, and when the names are pairwise distinct each is injected at most once.
\<close>

theorem C7_shader_assembly:
  assumes "createShader v w = Inr w'"
  shows "\<exists>sh. shader (vars w' v) = Some sh
     \<and> (\<forall>m rest. version_line m \<and> fragmentShader (vars w v) = m @ rest
          \<longrightarrow> sh_fragment sh = m @ spec_declarations w v @ rest)
     \<and> (\<not> (\<exists>m rest. version_line m \<and> fragmentShader (vars w v) = m @ rest)
          \<longrightarrow> sh_fragment sh = spec_declarations w v @ fragmentShader (vars w v))
     \<and> (\<forall>n. \<not> list_ex regex_syntax_char n
          \<longrightarrow> (declared w v n \<longleftrightarrow> declares (fragmentShader (vars w v)) n))
     \<and> injected_names w v
         = filter (\<lambda>n. \<not> declared w v n) (sampler_names w v @ map fst (uniforms (vars w v)))
     \<and> (distinct (sampler_names w v @ map fst (uniforms (vars w v)))
          \<longrightarrow> distinct (injected_names w v))"
proof -
  from createShader_Inr_code [OF assms] obtain code res prm where
    code: "codeToInject w v = Inr code"
    and sh: "shader (vars w' v) = Some \<lparr>sh_fragment = injectShaderCode (fragmentShader (vars w v)) code,
                                          sh_resources = res, sh_params = prm\<rparr>"
    by auto
  note c = codeToInject_spec [OF code]
  let ?sh = "\<lparr>sh_fragment = injectShaderCode (fragmentShader (vars w v)) code,
             sh_resources = res, sh_params = prm\<rparr>"
  have 1: "sh_fragment ?sh = m @ spec_declarations w v @ rest"
    if "version_line m \<and> fragmentShader (vars w v) = m @ rest" for m rest
    using that injectShaderCode_version [of m "fragmentShader (vars w v)" rest code] c by simp
  have 2: "sh_fragment ?sh = spec_declarations w v @ fragmentShader (vars w v)"
    if "\<not> (\<exists>m rest. version_line m \<and> fragmentShader (vars w v) = m @ rest)"
    using injectShaderCode_no_version [OF that, of code] c by simp
  have 3: "declared w v n \<longleftrightarrow> declares (fragmentShader (vars w v)) n"
    if "\<not> list_ex regex_syntax_char n" for n
    using that by (rule declared_declares)
  from sh 1 2 3 injected_names_filter [of w v] injected_names_distinct [of w v]
  show ?thesis by blast
qed

lemma C7_witness_facts:
  "\<not> isl (createShader 1 heap_shader)"
  "fragmentShader (vars heap_shader 1)
     = (''#version 300 es'' @ nl) @ (''uniform sampler2D uTex;'' @ nl @ ''void main(){}'')"
  "spec_declarations heap_shader 1
     = ''#define resolution vec2(2.0, 2.0)'' @ nl @ ''uniform sampler2D b;'' @ nl
       @ ''uniform float uDt;'' @ nl"
  "\<not> list_ex regex_syntax_char ''uTex''"
  "declared heap_shader 1 ''uTex''"
  "distinct (sampler_names heap_shader 1 @ map fst (uniforms (vars heap_shader 1)))"
  by code_simp+

lemma version_line_300: "version_line (''#version 300 es'' @ nl)"
  unfolding version_line_def
  by (intro exI [of _ "[]"] exI [of _ "'' 300 es''"]) simp

theorem C7_shader_assembly_witness:
  "createShader 1 heap_shader = Inr (state_of (createShader 1 heap_shader))
   \<and> version_line (''#version 300 es'' @ nl)
   \<and> fragmentShader (vars heap_shader 1)
       = (''#version 300 es'' @ nl) @ (''uniform sampler2D uTex;'' @ nl @ ''void main(){}'')
   \<and> \<not> list_ex regex_syntax_char ''uTex''
   \<and> distinct (sampler_names heap_shader 1 @ map fst (uniforms (vars heap_shader 1)))
   \<and> (\<exists>sh. shader (vars (state_of (createShader 1 heap_shader)) 1) = Some sh
          \<and> sh_fragment sh
              = (''#version 300 es'' @ nl)
                @ (''#define resolution vec2(2.0, 2.0)'' @ nl @ ''uniform sampler2D b;'' @ nl
                   @ ''uniform float uDt;'' @ nl)
                @ (''uniform sampler2D uTex;'' @ nl @ ''void main(){}''))
   \<and> declares (fragmentShader (vars heap_shader 1)) ''uTex''
   \<and> ''uTex'' \<notin> set (injected_names heap_shader 1)
   \<and> distinct (injected_names heap_shader 1)"
proof -
  note r = C7_witness_facts(1) [THEN not_isl_state_of]
  from C7_shader_assembly [OF r] obtain sh where
    sh: "shader (vars (state_of (createShader 1 heap_shader)) 1) = Some sh"
    and v: "\<And>m rest. version_line m \<and> fragmentShader (vars heap_shader 1) = m @ rest
          \<Longrightarrow> sh_fragment sh = m @ spec_declarations heap_shader 1 @ rest"
    and d: "\<And>n. \<not> list_ex regex_syntax_char n
          \<Longrightarrow> (declared heap_shader 1 n \<longleftrightarrow> declares (fragmentShader (vars heap_shader 1)) n)"
    and f: "injected_names heap_shader 1
         = filter (\<lambda>n. \<not> declared heap_shader 1 n)
             (sampler_names heap_shader 1 @ map fst (uniforms (vars heap_shader 1)))"
    and di: "distinct (sampler_names heap_shader 1 @ map fst (uniforms (vars heap_shader 1)))
          \<Longrightarrow> distinct (injected_names heap_shader 1)"
    by blast
  from v [OF conjI [OF version_line_300 C7_witness_facts(2)]] have
    fr: "sh_fragment sh
              = (''#version 300 es'' @ nl)
                @ (''#define resolution vec2(2.0, 2.0)'' @ nl @ ''uniform sampler2D b;'' @ nl
                   @ ''uniform float uDt;'' @ nl)
                @ (''uniform sampler2D uTex;'' @ nl @ ''void main(){}'')"
    by (simp only: C7_witness_facts(3))
  from d [OF C7_witness_facts(4)] C7_witness_facts(5) have
    dc: "declares (fragmentShader (vars heap_shader 1)) ''uTex''" by simp
  from f C7_witness_facts(5) have ni: "''uTex'' \<notin> set (injected_names heap_shader 1)" by simp
  from r version_line_300 C7_witness_facts(2,4,6) sh fr dc ni di [OF C7_witness_facts(6)]
  show ?thesis by blast
qed


text \<open>
  Claim C7 as stated fails: declarations are checked against the body only, not against
  each other, so a dependency that is listed twice is declared twice in the compiled
  fragment.
\<close>

theorem C7_counterexample:
  "\<not> isl (init 0 heap_dup)
   \<and> map_option sh_fragment (shader (vars (state_of (init 0 heap_dup)) 0))
       = Some (''#define resolution vec2(2.0, 2.0)'' @ nl
               @ ''uniform sampler2D b;'' @ nl @ ''uniform sampler2D b;'' @ nl)
   \<and> injected_names heap_dup 0 = [''b'', ''b'']"
  by code_simp

section \<open>Release of textures by \<open>destroy\<close>\<close>

lemma destroyTextures_Inr:
  assumes "destroyTextures d w = Inr w'" "\<not> texturesDestroyed (vars w d)"
  shows "vars w' = (vars w)(d := (vars w d)\<lparr>texturesDestroyed := True\<rparr>)"
    "tex_destroyed (textures w' t) \<longleftrightarrow>
       tex_destroyed (textures w t) \<or>
       (needsPingPong (vars w d) \<and> getAlternateTexture w d = Some t
        \<and> \<not> isExternalAlternate w d)"
    "nextVar w' = nextVar w"
  using assms
  by (auto simp add: destroyTextures_def Let_def getAlternateTexture_def isExternalAlternate_def destroyTexture_def
      upd_var_def split: if_splits option.splits)






lemma destroyTextures_done: "texturesDestroyed (vars w d) \<Longrightarrow> destroyTextures d w = Inr w"
  by (simp add: destroyTextures_def)








section \<open>Externally owned initial textures\<close>

text \<open>\<open>destroyTextures\<close> spares the texture that is the variable's external ping texture at
  that moment.\<close>

lemma destroyTextures_spares_external_ping:
  assumes "externalPingTexture (vars w v)" "pingTexture (vars w v) = Some t"
    "destroyTextures v w = Inr w'"
  shows "tex_destroyed (textures w' t) = tex_destroyed (textures w t)"
proof (cases "texturesDestroyed (vars w v)")
  case True
  with assms(3) show ?thesis by (simp add: destroyTextures_done)
next
  case False
  from destroyTextures_Inr(2) [OF assms(3) False, of t] assms(1,2) show ?thesis
    by (auto simp add: isExternalAlternate_def)
qed


text \<open>
  Claim C9 fails on the code. The protection of \<open>destroyTextures\<close> compares the alternate
  texture with \<open>pingTexture\<close> only. After \<open>v.setInitialTexture(T); v.init()\<close> without
  self-dependency \<open>pongTexture\<close> is \<open>T\<close> as well; a \<open>destroy\<close> while \<open>u\<close> still reads
  \<open>v\<close> keeps the textures and resets \<open>initialized\<close>; a second \<open>setInitialTexture(T2)\<close>
  then leaves \<open>T\<close> as \<open>pongTexture\<close>, and once \<open>v\<close> has been initialized again as a
  ping-pong variable, destroying \<open>u\<close> makes \<open>v\<close> destroy \<open>T\<close>.
\<close>

(*SLOW*)
theorem C9_external_texture_destroyed:
  "\<not> isl (script heap_ext external_calls)
   \<and> externalPingTexture (vars heap_ext_before 0)
   \<and> pingTexture (vars heap_ext_before 0) = Some 1
   \<and> pongTexture (vars heap_ext_before 0) = Some 0
   \<and> \<not> tex_destroyed (textures heap_ext_before 0)
   \<and> \<not> isl (destroy 1 heap_ext_before)
   \<and> tex_destroyed (textures (state_of (destroy 1 heap_ext_before)) 0)"
  by code_simp

(*/SLOW*)
section \<open>The pass schedule of \<open>generateSDFTex\<close>\<close>
















lemma init_pre_env [simp]:
  "renderLog (init_pre v w) = renderLog w" "shaderError (init_pre v w) = shaderError w"
  "nextVar (init_pre v w) = nextVar w"
  by (simp_all add: init_pre_def)


lemma plain_names_init_pre [simp]: "plain_names (init_pre v w) u = plain_names w u"
  by (simp add: plain_names_def sampler_names_def init_pre_static)



lemma set_uniform_map_of:
  "map_of (map (\<lambda>(k, u). if k = key then (k, UniformData x (utype u)) else (k, u)) us) k'
     = (if k' = key then map_option (\<lambda>u. UniformData x (utype u)) (map_of us k') else map_of us k')"
  by (induction us) auto

lemma set_uniform_keys:
  "map fst (map (\<lambda>(k, u). if k = key then (k, UniformData x (utype u)) else (k, u)) us) = map fst us"
  by (induction us) auto

lemma jfa_seeded_fields [simp]:
  "initialized (jfa_seeded jf wd ht tex v p) = False"
  "dependencies (jfa_seeded jf wd ht tex v p) = [v]"
  "dependents (jfa_seeded jf wd ht tex v p) = {v}"
  "pingTexture (jfa_seeded jf wd ht tex v p) = Some p"
  "pongTexture (jfa_seeded jf wd ht tex v p) = Some (Suc p)"
  "hasSamplers (jfa_seeded jf wd ht tex v p) = True"
  "samplerKeys (jfa_seeded jf wd ht tex v p) = [''uTex'']"
  "samplers (jfa_seeded jf wd ht tex v p) = [(''uTex'', tex)]"
  "hasUniforms (jfa_seeded jf wd ht tex v p) = True"
  "uniformKeys (jfa_seeded jf wd ht tex v p) = [''uTexelSize'', ''uStepSize'', ''uFirst'']"
  "uniforms (jfa_seeded jf wd ht tex v p) = jfa_uniforms wd ht (Num 1) (Num 1)"
  "needsPingPong (jfa_seeded jf wd ht tex v p) = True"
  "externalPingTexture (jfa_seeded jf wd ht tex v p) = False"
  "destroyed (jfa_seeded jf wd ht tex v p) = False"
  "texturesDestroyed (jfa_seeded jf wd ht tex v p) = False"
  "currentIndex (jfa_seeded jf wd ht tex v p) = 0"
  "shader (jfa_seeded jf wd ht tex v p) = None"
  "name (jfa_seeded jf wd ht tex v p) = ''jfa''"
  by (simp_all add: jfa_seeded_def fresh_gcv_def jfa_options_def jfa_uniforms_def)

lemma jfa_uniforms_lookup [simp]:
  "map_of (jfa_uniforms wd ht s f) ''uFirst'' = Some (UniformData f ''f32'')"
  "map_of (jfa_uniforms wd ht s f) ''uStepSize'' = Some (UniformData s ''f32'')"
  "map_of (jfa_uniforms wd ht s f) ''uTexelSize''
     = Some (UniformData (Vec [1 / real wd, 1 / real ht]) ''vec2<f32>'')"
  by (simp_all add: jfa_uniforms_def)

lemma jfa_uniforms_types [simp]:
  "list_all (\<lambda>(k, u). map_of PIXI_TO_GLSL_TYPE (utype u) \<noteq> None) (jfa_uniforms wd ht s f)"
  by (simp add: jfa_uniforms_def PIXI_TO_GLSL_TYPE_def)

lemma jfa_uniforms_set [simp]:
  "map (\<lambda>(k, u). if k = ''uStepSize'' then (k, UniformData x (utype u)) else (k, u)) (jfa_uniforms wd ht s f)
     = jfa_uniforms wd ht x f"
  "map (\<lambda>(k, u). if k = ''uFirst'' then (k, UniformData x (utype u)) else (k, u)) (jfa_uniforms wd ht s f)
     = jfa_uniforms wd ht s x"
  by (simp_all add: jfa_uniforms_def)








lemma set_uniform_value_env [simp]:
  "renderLog (set_uniform_value v k x w) = renderLog w"
  "nextVar (set_uniform_value v k x w) = nextVar w"
  by (simp_all add: set_uniform_value_def)






lemma destroyTexture_env [simp]:
  "renderLog (destroyTexture t w) = renderLog w" "vars (destroyTexture t w) = vars w"
  by (simp_all add: destroyTexture_def)






section \<open>Chained evaluation (\<open>computeChain\<close>)\<close>






lemma computed_refl [simp]: "computed w w = []"
  by (simp add: computed_def new_passes_def)



lemma computed_same_log: "renderLog w' = renderLog w \<Longrightarrow> computed w w' = []"
  by (simp add: computed_def new_passes_def)

lemma chain_world_simps [simp]:
  "chain_world (Inl (e, w')) = w'" "chain_world (Inr (vis', w')) = w'"
  by (simp_all add: chain_world_def)










lemma chain_fuel_mono:
  "computeChain n v s = Some r \<Longrightarrow> computeChain (Suc n) v s = Some r"
  "chain_deps n v ds s = Some r \<Longrightarrow> chain_deps (Suc n) v ds s = Some r"
proof (induction n v s and n v ds s arbitrary: r and r rule: computeChain_chain_deps.induct)
  case (1 v s)
  then show ?case by simp
next
  case (2 n v visited w)
  show ?case
  proof (cases "v \<in> visited")
    case True
    with "2.prems" show ?thesis by simp
  next
    case False
    with "2.prems" obtain r1 where
      c: "chain_deps n v (dependencies (vars w v)) (insert v visited, w) = Some r1"
      by (auto split: option.splits)
    from "2.IH" [OF False c] c "2.prems" False show ?thesis by simp
  qed
next
  case (3 n v s)
  then show ?case by simp
next
  case (4 n v dep deps s)
  show ?case
  proof (cases "dep = v")
    case True
    with "4.prems" have "chain_deps n v deps s = Some r" by simp
    from "4.IH"(1) [OF True this] True show ?thesis by simp
  next
    case False
    with "4.prems" obtain r1 where c: "computeChain n dep s = Some r1"
      by (auto split: option.splits)
    note c' = "4.IH"(2) [OF False c]
    show ?thesis
    proof (cases r1)
      case (Inl ew)
      with c "4.prems" False have "r = Inl ew" by simp
      with c' Inl False show ?thesis by simp
    next
      case (Inr b)
      with c "4.prems" False have d: "chain_deps n v deps b = Some r" by simp
      from "4.IH"(3) [OF False c Inr d] c' Inr False show ?thesis by simp
    qed
  qed
qed





end
